theory Spec2Isabelle
  imports Main
begin

section \<open>Data model (src/types/chess.ts)\<close>

datatype PieceColor = W | B

text \<open>The piece letters \<open>'p' | 'r' | 'n' | 'b' | 'q' | 'k'\<close>; the bishop is \<open>Bi\<close>
  because \<open>B\<close> is the black colour.\<close>

datatype PieceType = P | R | N | Bi | Q | K

record Piece =
  type :: PieceType
  color :: PieceColor

text \<open>A square \<open>"e4"\<close> is the pair of what the code reads from it:
  \<open>charCodeAt(0) - 97\<close> (the file, 0 for a) and \<open>parseInt(sq[1])\<close> (the rank, 1 to 8).\<close>

type_synonym Square = "nat \<times> nat"

definition onBoard :: "Square \<Rightarrow> bool" where
  "onBoard sq = (fst sq < 8 \<and> 1 \<le> snd sq \<and> snd sq \<le> 8)"

datatype Phase = Standard | Creative

subsection \<open>The chess.js object, as far as the rules layer uses it\<close>

text \<open>The engine is a library outside the repository. Its position is modelled by what the
  rules layer reads and writes: the piece on each square and the side to move. An argument
  that the caller left out (\<open>undefined\<close> in JS) is \<open>None\<close>: \<open>get\<close> finds no piece
  there, \<open>remove\<close> and \<open>put\<close> change nothing, as for any key that is not a square.\<close>

record Chess =
  board :: "Square \<Rightarrow> Piece option"
  turn :: PieceColor

definition get :: "Chess \<Rightarrow> Square option \<Rightarrow> Piece option" where
  "get ch a = (case a of None \<Rightarrow> None
                | Some sq \<Rightarrow> if onBoard sq then board ch sq else None)"

definition remove :: "Chess \<Rightarrow> Square option \<Rightarrow> Chess" where
  "remove ch a = (case a of None \<Rightarrow> ch
                   | Some sq \<Rightarrow> if onBoard sq then ch\<lparr>board := (board ch)(sq := None)\<rparr> else ch)"

text \<open>chess.js also refuses a second king of one colour; both callers of \<open>put\<close>
  (Swap Places, Clone Ray) exclude kings in their \<open>validateTarget\<close>.\<close>

definition put :: "Chess \<Rightarrow> Piece \<Rightarrow> Square option \<Rightarrow> Chess" where
  "put ch p a = (case a of None \<Rightarrow> ch
                  | Some sq \<Rightarrow> if onBoard sq then ch\<lparr>board := (board ch)(sq \<mapsto> p)\<rparr> else ch)"

text \<open>\<open>new Chess()\<close>: the standard starting position, White to move.\<close>

definition backRank :: "PieceType list" where
  "backRank = [R, N, Bi, Q, K, Bi, N, R]"

definition startBoard :: "Square \<Rightarrow> Piece option" where
  "startBoard sq =
     (if \<not> onBoard sq then None
      else if snd sq = 1 then Some \<lparr>type = backRank ! fst sq, color = W\<rparr>
      else if snd sq = 2 then Some \<lparr>type = P, color = W\<rparr>
      else if snd sq = 7 then Some \<lparr>type = P, color = B\<rparr>
      else if snd sq = 8 then Some \<lparr>type = backRank ! fst sq, color = B\<rparr>
      else None)"

definition newChess :: Chess where
  "newChess = \<lparr>board = startBoard, turn = W\<rparr>"

record GameState =
  chess :: Chess
  currentPlayer :: PieceColor
  phase :: Phase
  halfMoves :: nat
  selectedSquare :: "Square option"
  validMoves :: "Square list"
  gameOver :: bool
  winner :: "PieceColor option"
  lastMove :: "(Square \<times> Square) option"

section \<open>Helper functions (lib/chess-actions)\<close>

definition getSquareDistance :: "Square \<Rightarrow> Square \<Rightarrow> int" where
  "getSquareDistance sq1 sq2 =
     (let file1 = int (fst sq1); rank1 = int (snd sq1) - 1;
          file2 = int (fst sq2); rank2 = int (snd sq2) - 1
      in \<bar>file1 - file2\<bar> + \<bar>rank1 - rank2\<bar>)"

definition getOpponentColor :: "PieceColor \<Rightarrow> PieceColor" where
  "getOpponentColor c = (if c = W then B else W)"

text \<open>The scan order of every board loop: rank 1 to 8 outside, file a to h inside.\<close>

definition allSquares :: "Square list" where
  "allSquares = concat (map (\<lambda>rank. map (\<lambda>file. (file, rank)) [0..<8]) [1..<9])"

definition getPiecesOfColor :: "Chess \<Rightarrow> PieceColor \<Rightarrow> (Piece \<times> Square) list" where
  "getPiecesOfColor ch c =
     List.map_filter
       (\<lambda>sq. case get ch (Some sq) of
                None \<Rightarrow> None
              | Some p \<Rightarrow> if color p = c then Some (p, sq) else None)
       allSquares"

definition getEmptySquares :: "Chess \<Rightarrow> Square list" where
  "getEmptySquares ch = filter (\<lambda>sq. get ch (Some sq) = None) allSquares"

subsection \<open>The copy through the position string\<close>

text \<open>\<open>new Chess(chess.fen())\<close> opens \<open>makeMove\<close> and every \<open>execute\<close> that changes the
  board. The constructor of chess.js validates the string and throws when it refuses it. Of
  the criteria of its \<open>validateFen\<close>, two depend on the pieces: the position must hold exactly
  one king of each colour, and no pawn may stand on rank 1 or rank 8. The others concern the
  fields of the string that this model does not hold. A copy that is accepted holds the same
  pieces and the same side to move; \<open>None\<close> is the throw.\<close>

definition kingCount :: "Chess \<Rightarrow> PieceColor \<Rightarrow> nat" where
  "kingCount ch c = length (filter (\<lambda>p. type (fst p) = K) (getPiecesOfColor ch c))"

definition pawnOnEdge :: "Chess \<Rightarrow> bool" where
  "pawnOnEdge ch =
     list_ex (\<lambda>sq. (snd sq = 1 \<or> snd sq = 8) \<and>
                    (case get ch (Some sq) of None \<Rightarrow> False | Some p \<Rightarrow> type p = P))
       allSquares"

definition validateFen :: "Chess \<Rightarrow> bool" where
  "validateFen ch = (kingCount ch W = 1 \<and> kingCount ch B = 1 \<and> \<not> pawnOnEdge ch)"

definition fenCopy :: "Chess \<Rightarrow> Chess option" where
  "fenCopy ch = (if validateFen ch then Some ch else None)"


section \<open>The creative actions (lib/chess-actions)\<close>

text \<open>The rest arguments \<open>...args\<close> are the list of squares passed; a parameter beyond the
  end of the list is \<open>undefined\<close>. Job Application's second argument is an action id that
  neither of its functions reads.\<close>

definition arg :: "Square list \<Rightarrow> nat \<Rightarrow> Square option" where
  "arg args i = (if i < length args then Some (args ! i) else None)"

subsection \<open>Snip\<close>

definition snip_validateTarget :: "GameState \<Rightarrow> Square list \<Rightarrow> bool" where
  "snip_validateTarget gs args =
     (case get (chess gs) (arg args 0) of
        None \<Rightarrow> False
      | Some piece \<Rightarrow> type piece = P \<and> color piece \<noteq> currentPlayer gs)"

definition snip_execute :: "GameState \<Rightarrow> Square list \<Rightarrow> GameState option" where
  "snip_execute gs args =
     (case fenCopy (chess gs) of
        None \<Rightarrow> None
      | Some c \<Rightarrow> Some (gs\<lparr>chess := remove c (arg args 0)\<rparr>))"

subsection \<open>Rubber-Band Shot\<close>

text \<open>\<open>piece?.color !== currentPlayer\<close> is true on an empty square too.\<close>

definition rubberBand_validateTarget :: "GameState \<Rightarrow> Square list \<Rightarrow> bool" where
  "rubberBand_validateTarget gs args =
     (case get (chess gs) (arg args 0) of
        None \<Rightarrow> True
      | Some piece \<Rightarrow> color piece \<noteq> currentPlayer gs)"

text \<open>The source: \<open>// Mark piece as frozen for 1 turn - would need status tracking\<close>,
  \<open>return gameState; // Simplified for now\<close>.\<close>

definition rubberBand_execute :: "GameState \<Rightarrow> Square list \<Rightarrow> GameState" where
  "rubberBand_execute gs args = gs"

subsection \<open>Nuke\<close>

text \<open>Both functions read \<open>centerSquare.charCodeAt(0)\<close>, which throws a TypeError when the
  argument is missing: \<open>None\<close>. In \<open>execute\<close> the copy of the position comes first.\<close>

definition nuke_validateTarget :: "GameState \<Rightarrow> Square list \<Rightarrow> bool option" where
  "nuke_validateTarget gs args =
     (case arg args 0 of
        None \<Rightarrow> None
      | Some centerSquare \<Rightarrow>
          (let file = int (fst centerSquare); rank = int (snd centerSquare) - 1
           in Some (file \<ge> 0 \<and> file \<le> 6 \<and> rank \<ge> 0 \<and> rank \<le> 6)))"

definition nuke_block :: "int \<Rightarrow> int \<Rightarrow> Square list" where
  "nuke_block file rank =
     concat (map (\<lambda>f. map (\<lambda>r. (nat f, nat (r + 1))) [rank, rank + 1]) [file, file + 1])"

definition nuke_execute :: "GameState \<Rightarrow> Square list \<Rightarrow> GameState option" where
  "nuke_execute gs args =
     (case fenCopy (chess gs) of
        None \<Rightarrow> None
      | Some c0 \<Rightarrow>
         (case arg args 0 of
            None \<Rightarrow> None
          | Some centerSquare \<Rightarrow>
              (let file = int (fst centerSquare); rank = int (snd centerSquare) - 1
               in Some (gs\<lparr>chess :=
                    fold (\<lambda>square c.
                            case get c (Some square) of
                              None \<Rightarrow> c
                            | Some piece \<Rightarrow>
                                if color piece \<noteq> currentPlayer gs then remove c (Some square)
                                else c)
                         (nuke_block file rank) c0\<rparr>))))"

subsection \<open>Job Application\<close>

definition jobApplication_validateTarget :: "GameState \<Rightarrow> Square list \<Rightarrow> bool" where
  "jobApplication_validateTarget gs args =
     (case get (chess gs) (arg args 0) of
        None \<Rightarrow> False
      | Some piece \<Rightarrow> color piece = currentPlayer gs)"

definition jobApplication_execute :: "GameState \<Rightarrow> Square list \<Rightarrow> GameState option" where
  "jobApplication_execute gs args =
     (case fenCopy (chess gs) of
        None \<Rightarrow> None
      | Some c \<Rightarrow> Some (gs\<lparr>chess := remove c (arg args 0)\<rparr>))"

subsection \<open>Robot Proxy\<close>

definition robotProxy_validateTarget :: "GameState \<Rightarrow> Square list \<Rightarrow> bool" where
  "robotProxy_validateTarget gs args =
     (case get (chess gs) (arg args 0) of
        None \<Rightarrow> False
      | Some piece \<Rightarrow> color piece = currentPlayer gs)"

text \<open>\<open>opponentPieces.find(p => p.piece.type === t)\<close>.\<close>

definition findType :: "PieceType \<Rightarrow> (Piece \<times> Square) list \<Rightarrow> (Piece \<times> Square) option" where
  "findType t ps = find (\<lambda>p. type (fst p) = t) ps"

text \<open>The loop over \<open>fallbackOrder\<close>, with its \<open>break\<close> at the first type found.\<close>

fun fallback :: "PieceType list \<Rightarrow> (Piece \<times> Square) list \<Rightarrow> Chess \<Rightarrow> Chess" where
  "fallback [] opponentPieces c = c"
| "fallback (t # ts) opponentPieces c =
     (case findType t opponentPieces of
        Some fallbackTarget \<Rightarrow> remove c (Some (snd fallbackTarget))
      | None \<Rightarrow> fallback ts opponentPieces c)"

text \<open>The copy of the position is the first statement of \<open>execute\<close>, before the pilot is
  read.\<close>

definition robotProxy_execute :: "GameState \<Rightarrow> Square list \<Rightarrow> GameState option" where
  "robotProxy_execute gs args =
     (case fenCopy (chess gs) of
        None \<Rightarrow> None
      | Some c \<Rightarrow>
         (case get c (arg args 0) of
            None \<Rightarrow> Some gs
          | Some pilotPiece \<Rightarrow>
              (let opponentPieces = getPiecesOfColor c (getOpponentColor (color pilotPiece)) in
               case findType (type pilotPiece) opponentPieces of
                 Some targetPiece \<Rightarrow> Some (gs\<lparr>chess := remove c (Some (snd targetPiece))\<rparr>)
               | None \<Rightarrow> Some (gs\<lparr>chess := fallback [P, Q, K] opponentPieces c\<rparr>))))"

subsection \<open>Swap Places\<close>

definition swapPlaces_validateTarget :: "GameState \<Rightarrow> Square list \<Rightarrow> bool" where
  "swapPlaces_validateTarget gs args =
     (case (get (chess gs) (arg args 0), get (chess gs) (arg args 1)) of
        (Some piece1, Some piece2) \<Rightarrow>
          color piece1 = currentPlayer gs \<and> color piece2 = currentPlayer gs \<and>
          type piece1 \<noteq> K \<and> type piece2 \<noteq> K
      | _ \<Rightarrow> False)"

definition swapPlaces_execute :: "GameState \<Rightarrow> Square list \<Rightarrow> GameState option" where
  "swapPlaces_execute gs args =
     (case fenCopy (chess gs) of
        None \<Rightarrow> None
      | Some c \<Rightarrow>
         (let square1 = arg args 0; square2 = arg args 1 in
          case (get c square1, get c square2) of
            (Some piece1, Some piece2) \<Rightarrow>
              Some (gs\<lparr>chess :=
                put (put (remove (remove c square1) square2) piece1 square2) piece2 square1\<rparr>)
          | _ \<Rightarrow> Some (gs\<lparr>chess := c\<rparr>)))"

subsection \<open>Shield\<close>

definition shield_validateTarget :: "GameState \<Rightarrow> Square list \<Rightarrow> bool" where
  "shield_validateTarget gs args =
     (case get (chess gs) (arg args 0) of
        None \<Rightarrow> False
      | Some piece \<Rightarrow> color piece = currentPlayer gs)"

text \<open>The source: \<open>// Would need status tracking for shields\<close>, \<open>return gameState;\<close>.\<close>

definition shield_execute :: "GameState \<Rightarrow> Square list \<Rightarrow> GameState" where
  "shield_execute gs args = gs"

subsection \<open>EMP Blast, Loot Drop, Time Freeze, Spy Drone: no target, \<open>return gameState\<close>\<close>

definition empBlast_execute :: "GameState \<Rightarrow> Square list \<Rightarrow> GameState" where
  "empBlast_execute gs args = gs"

definition lootDrop_execute :: "GameState \<Rightarrow> Square list \<Rightarrow> GameState" where
  "lootDrop_execute gs args = gs"

definition timeFreeze_execute :: "GameState \<Rightarrow> Square list \<Rightarrow> GameState" where
  "timeFreeze_execute gs args = gs"

definition spyDrone_execute :: "GameState \<Rightarrow> Square list \<Rightarrow> GameState" where
  "spyDrone_execute gs args = gs"

subsection \<open>Clone Ray\<close>

definition cloneRay_validateTarget :: "GameState \<Rightarrow> Square list \<Rightarrow> bool" where
  "cloneRay_validateTarget gs args =
     (case get (chess gs) (arg args 0) of
        None \<Rightarrow> False
      | Some piece \<Rightarrow>
          color piece = currentPlayer gs \<and> type piece \<noteq> K \<and>
          get (chess gs) (arg args 1) = None)"

definition cloneRay_execute :: "GameState \<Rightarrow> Square list \<Rightarrow> GameState option" where
  "cloneRay_execute gs args =
     (case fenCopy (chess gs) of
        None \<Rightarrow> None
      | Some c \<Rightarrow>
         (case get c (arg args 0) of
            None \<Rightarrow> Some (gs\<lparr>chess := c\<rparr>)
          | Some piece \<Rightarrow> Some (gs\<lparr>chess := put c piece (arg args 1)\<rparr>)))"

subsection \<open>Sniper Shot\<close>

definition sniperShot_validateTarget :: "GameState \<Rightarrow> Square list \<Rightarrow> bool" where
  "sniperShot_validateTarget gs args =
     (case (get (chess gs) (arg args 0), arg args 0) of
        (Some piece, Some targetSquare) \<Rightarrow>
          if color piece = currentPlayer gs then False
          else
            (let playerPieces = getPiecesOfColor (chess gs) (currentPlayer gs)
             in list_ex (\<lambda>p. getSquareDistance (snd p) targetSquare \<ge> 3) playerPieces)
      | _ \<Rightarrow> False)"

definition sniperShot_execute :: "GameState \<Rightarrow> Square list \<Rightarrow> GameState option" where
  "sniperShot_execute gs args =
     (case fenCopy (chess gs) of
        None \<Rightarrow> None
      | Some c \<Rightarrow> Some (gs\<lparr>chess := remove c (arg args 0)\<rparr>))"

subsection \<open>Puzzle Trap\<close>

definition puzzleTrap_validateTarget :: "GameState \<Rightarrow> Square list \<Rightarrow> bool" where
  "puzzleTrap_validateTarget gs args = (get (chess gs) (arg args 0) = None)"

definition puzzleTrap_execute :: "GameState \<Rightarrow> Square list \<Rightarrow> GameState" where
  "puzzleTrap_execute gs args = gs"

subsection \<open>Rocket Barrage\<close>

text \<open>\<open>Math.random()\<close> is the ambient generator of the JS runtime; the code neither seeds
  it nor passes it in. Its run is modelled as the sequence \<open>rnd\<close> of the values
  \<open>Math.floor(Math.random() * 6)\<close> of its successive calls (read modulo 6, so that every roll is
  1 to 6) and the number \<open>n\<close> of calls made so far.\<close>

definition roll :: "(nat \<Rightarrow> nat) \<Rightarrow> nat \<Rightarrow> nat" where
  "roll rnd n = rnd n mod 6 + 1"

definition rocketBarrage_validateTarget :: "GameState \<Rightarrow> Square list \<Rightarrow> bool" where
  "rocketBarrage_validateTarget gs targetSquares =
     (length targetSquares \<le> 3 \<and>
      list_all (\<lambda>square. case get (chess gs) (Some square) of
                           None \<Rightarrow> False
                         | Some piece \<Rightarrow> color piece \<noteq> currentPlayer gs) targetSquares)"

fun barrage :: "(nat \<Rightarrow> nat) \<Rightarrow> Square list \<Rightarrow> Chess \<Rightarrow> nat \<Rightarrow> Chess \<times> nat" where
  "barrage rnd [] c n = (c, n)"
| "barrage rnd (square # rest) c n =
     barrage rnd rest (if roll rnd n \<ge> 4 then remove c (Some square) else c) (n + 1)"

text \<open>The copy of the position comes before the loop, so a throw makes no draw.\<close>

definition rocketBarrage_execute ::
  "(nat \<Rightarrow> nat) \<Rightarrow> nat \<Rightarrow> GameState \<Rightarrow> Square list \<Rightarrow> (GameState \<times> nat) option" where
  "rocketBarrage_execute rnd n gs targetSquares =
     (case fenCopy (chess gs) of
        None \<Rightarrow> None
      | Some c0 \<Rightarrow>
         (case barrage rnd targetSquares c0 n of
            (c, n') \<Rightarrow> Some (gs\<lparr>chess := c\<rparr>, n')))"

subsection \<open>The catalogue\<close>

text \<open>An entry keeps the fields the rules read. \<open>validateTarget\<close> is absent (\<open>None\<close>) for
  the four actions without a target; a function that throws returns \<open>None\<close>.
  \<open>execute\<close> takes the generator and returns the state with the number of draws made.
  \<open>targeted\<close> and \<open>untargeted\<close> are the entries whose \<open>execute\<close> always returns,
  \<open>copying\<close> those whose \<open>execute\<close> copies the position and may throw.\<close>

record ActionEffect =
  action_id :: string
  name :: string
  used :: bool
  needsTarget :: bool
  validateTarget :: "(GameState \<Rightarrow> Square list \<Rightarrow> bool option) option"
  execute :: "(nat \<Rightarrow> nat) \<Rightarrow> nat \<Rightarrow> GameState \<Rightarrow> Square list \<Rightarrow> (GameState \<times> nat) option"

definition returns :: "(GameState \<Rightarrow> Square list \<Rightarrow> bool)
    \<Rightarrow> (GameState \<Rightarrow> Square list \<Rightarrow> bool option) option" where
  "returns v = Some (\<lambda>gs args. Some (v gs args))"

definition noDraw :: "(GameState \<Rightarrow> Square list \<Rightarrow> GameState)
    \<Rightarrow> (nat \<Rightarrow> nat) \<Rightarrow> nat \<Rightarrow> GameState \<Rightarrow> Square list \<Rightarrow> (GameState \<times> nat) option" where
  "noDraw e rnd n gs args = Some (e gs args, n)"

definition targeted :: "string \<Rightarrow> string \<Rightarrow> (GameState \<Rightarrow> Square list \<Rightarrow> bool)
    \<Rightarrow> (GameState \<Rightarrow> Square list \<Rightarrow> GameState) \<Rightarrow> ActionEffect" where
  "targeted i nm v e =
     \<lparr>action_id = i, name = nm, used = False, needsTarget = True,
      validateTarget = returns v, execute = noDraw e\<rparr>"

definition orThrow :: "(GameState \<Rightarrow> Square list \<Rightarrow> GameState option)
    \<Rightarrow> (nat \<Rightarrow> nat) \<Rightarrow> nat \<Rightarrow> GameState \<Rightarrow> Square list \<Rightarrow> (GameState \<times> nat) option" where
  "orThrow e rnd n gs args = map_option (\<lambda>g. (g, n)) (e gs args)"

definition copying :: "string \<Rightarrow> string \<Rightarrow> (GameState \<Rightarrow> Square list \<Rightarrow> bool)
    \<Rightarrow> (GameState \<Rightarrow> Square list \<Rightarrow> GameState option) \<Rightarrow> ActionEffect" where
  "copying i nm v e =
     \<lparr>action_id = i, name = nm, used = False, needsTarget = True,
      validateTarget = returns v, execute = orThrow e\<rparr>"

definition untargeted :: "string \<Rightarrow> string
    \<Rightarrow> (GameState \<Rightarrow> Square list \<Rightarrow> GameState) \<Rightarrow> ActionEffect" where
  "untargeted i nm e =
     \<lparr>action_id = i, name = nm, used = False, needsTarget = False,
      validateTarget = None, execute = noDraw e\<rparr>"

definition nuke_action :: ActionEffect where
  "nuke_action =
     \<lparr>action_id = ''nuke'', name = ''Nuke'', used = False, needsTarget = True,
      validateTarget = Some nuke_validateTarget,
      execute = orThrow nuke_execute\<rparr>"

definition rocketBarrage_action :: ActionEffect where
  "rocketBarrage_action =
     \<lparr>action_id = ''rocketBarrage'', name = ''Rocket Barrage'', used = False, needsTarget = True,
      validateTarget = returns rocketBarrage_validateTarget,
      execute = rocketBarrage_execute\<rparr>"

definition creativeActions :: "ActionEffect list" where
  "creativeActions =
     [copying ''snip'' ''Snip'' snip_validateTarget snip_execute,
      targeted ''rubberBand'' ''Rubber-Band Shot'' rubberBand_validateTarget rubberBand_execute,
      nuke_action,
      copying ''jobApplication'' ''Job Application''
        jobApplication_validateTarget jobApplication_execute,
      copying ''robotProxy'' ''Robot Proxy'' robotProxy_validateTarget robotProxy_execute,
      copying ''swapPlaces'' ''Swap Places'' swapPlaces_validateTarget swapPlaces_execute,
      targeted ''shield'' ''Shield'' shield_validateTarget shield_execute,
      untargeted ''empBlast'' ''EMP Blast'' empBlast_execute,
      untargeted ''lootDrop'' ''Loot Drop'' lootDrop_execute,
      untargeted ''timeFreeze'' ''Time Freeze'' timeFreeze_execute,
      copying ''cloneRay'' ''Clone Ray'' cloneRay_validateTarget cloneRay_execute,
      untargeted ''spyDrone'' ''Spy Drone'' spyDrone_execute,
      copying ''sniperShot'' ''Sniper Shot'' sniperShot_validateTarget sniperShot_execute,
      targeted ''puzzleTrap'' ''Puzzle Trap'' puzzleTrap_validateTarget puzzleTrap_execute,
      rocketBarrage_action]"

definition getActionById :: "string \<Rightarrow> ActionEffect option" where
  "getActionById i = find (\<lambda>action. action_id action = i) creativeActions"

section \<open>The game hook (hooks/useChessGame.ts)\<close>

definition CREATIVE_PHASE_THRESHOLD :: nat where
  "CREATIVE_PHASE_THRESHOLD = 20"

text \<open>The two pieces of React state, \<open>gameState\<close> and \<open>actionRegistry\<close> (\<open>false\<close> = unused,
  \<open>true\<close> = used), and the number of \<open>Math.random()\<close> calls made so far.\<close>

record HookState =
  gameState :: GameState
  actionRegistry :: "string \<rightharpoonup> bool"
  randomCalls :: nat

definition initialGameState :: GameState where
  "initialGameState =
     \<lparr>chess = newChess, currentPlayer = W, phase = Standard, halfMoves = 0,
      selectedSquare = None, validMoves = [], gameOver = False, winner = None,
      lastMove = None\<rparr>"

definition initialRegistry :: "string \<rightharpoonup> bool" where
  "initialRegistry =
     fold (\<lambda>action registry. registry(action_id action \<mapsto> False)) creativeActions Map.empty"

definition useChessGame :: HookState where
  "useChessGame =
     \<lparr>gameState = initialGameState, actionRegistry = initialRegistry, randomCalls = 0\<rparr>"

text \<open>The counting loop of \<open>checkWinCondition\<close>, with its two counters.\<close>

definition countPieces :: "Chess \<Rightarrow> nat \<times> nat" where
  "countPieces ch =
     fold (\<lambda>square (whitePieces, blackPieces).
             case get ch (Some square) of
               None \<Rightarrow> (whitePieces, blackPieces)
             | Some piece \<Rightarrow>
                 if color piece = W then (whitePieces + 1, blackPieces)
                 else (whitePieces, blackPieces + 1))
          allSquares (0, 0)"

definition checkWinCondition :: "Chess \<Rightarrow> bool \<times> PieceColor option" where
  "checkWinCondition ch =
     (case countPieces ch of
        (whitePieces, blackPieces) \<Rightarrow>
          if whitePieces = 0 then (True, Some B)
          else if blackPieces = 0 then (True, Some W)
          else (False, None))"

text \<open>\<open>move\<close> is the engine's \<open>chess.move({from, to})\<close> on the copied position: the position
  after the move, or \<open>None\<close> when the engine returns null or throws. These two and a throw
  of the copy all end in \<open>return false\<close>.\<close>

definition makeMove ::
  "(Chess \<Rightarrow> Square \<Rightarrow> Square \<Rightarrow> Chess option) \<Rightarrow> HookState \<Rightarrow> Square \<Rightarrow> Square
    \<Rightarrow> bool \<times> HookState" where
  "makeMove move st from to =
     (let gs = gameState st in
      case fenCopy (chess gs) of
        None \<Rightarrow> (False, st)
      | Some c0 \<Rightarrow>
         (case move c0 from to of
            None \<Rightarrow> (False, st)
          | Some c \<Rightarrow>
              (let newHalfMoves = halfMoves gs + 1;
                   ph = (if newHalfMoves \<ge> CREATIVE_PHASE_THRESHOLD then Creative else Standard)
               in case checkWinCondition c of
                    (over, win) \<Rightarrow>
                      (True, st\<lparr>gameState :=
                         gs\<lparr>chess := c, currentPlayer := turn c, phase := ph,
                            halfMoves := newHalfMoves, selectedSquare := None, validMoves := [],
                            lastMove := Some (from, to), gameOver := over, winner := win\<rparr>\<rparr>))))"

text \<open>\<open>moves\<close> is the engine's \<open>chess.moves({square, verbose: true})\<close>, mapped to the
  destinations.\<close>

definition selectSquare ::
  "(Chess \<Rightarrow> Square \<Rightarrow> Square \<Rightarrow> Chess option) \<Rightarrow> (Chess \<Rightarrow> Square \<Rightarrow> Square list)
    \<Rightarrow> HookState \<Rightarrow> Square \<Rightarrow> HookState" where
  "selectSquare move moves st square =
     (let gs = gameState st;
          own = (case get (chess gs) (Some square) of
                   None \<Rightarrow> False
                 | Some piece \<Rightarrow> color piece = currentPlayer gs)
      in if own then
           st\<lparr>gameState := gs\<lparr>selectedSquare := Some square,
                                validMoves := moves (chess gs) square\<rparr>\<rparr>
         else
           case selectedSquare gs of
             Some sel \<Rightarrow>
               if square \<in> set (validMoves gs) then snd (makeMove move st sel square)
               else st\<lparr>gameState := gs\<lparr>selectedSquare := None, validMoves := []\<rparr>\<rparr>
           | None \<Rightarrow> st\<lparr>gameState := gs\<lparr>selectedSquare := None, validMoves := []\<rparr>\<rparr>)"

text \<open>The result of \<open>validateTarget\<close> as \<open>executeAction\<close> reads it: called only when the
  action has the function and \<open>needsTarget\<close>; \<open>None\<close> when it throws.\<close>

definition targetAccepted :: "ActionEffect \<Rightarrow> GameState \<Rightarrow> Square list \<Rightarrow> bool option" where
  "targetAccepted action gs args =
     (case validateTarget action of
        None \<Rightarrow> Some True
      | Some v \<Rightarrow> if needsTarget action then v gs args else Some True)"

text \<open>Every \<open>return false\<close>, the \<open>catch\<close> included, comes before the two state setters.\<close>

definition executeAction ::
  "(nat \<Rightarrow> nat) \<Rightarrow> HookState \<Rightarrow> string \<Rightarrow> Square list \<Rightarrow> bool \<times> HookState" where
  "executeAction rnd st actionId args =
     (let gs = gameState st in
      if actionRegistry st actionId = Some True \<or> phase gs \<noteq> Creative then (False, st)
      else
        case getActionById actionId of
          None \<Rightarrow> (False, st)
        | Some action \<Rightarrow>
            (case targetAccepted action gs args of
               None \<Rightarrow> (False, st)
             | Some False \<Rightarrow> (False, st)
             | Some True \<Rightarrow>
                 (case execute action rnd (randomCalls st) gs args of
                    None \<Rightarrow> (False, st)
                  | Some (newGameState, n) \<Rightarrow>
                      (case checkWinCondition (chess newGameState) of
                         (over, win) \<Rightarrow>
                           (True,
                            \<lparr>gameState = newGameState\<lparr>gameOver := over, winner := win,
                               currentPlayer := (if currentPlayer gs = W then B else W)\<rparr>,
                             actionRegistry = (actionRegistry st)(actionId \<mapsto> True),
                             randomCalls = n\<rparr>)))))"

definition resetGame :: "HookState \<Rightarrow> HookState" where
  "resetGame st =
     st\<lparr>gameState := initialGameState, actionRegistry := initialRegistry\<rparr>"

definition getAvailableActions :: "HookState \<Rightarrow> ActionEffect list" where
  "getAvailableActions st =
     filter (\<lambda>action. actionRegistry st (action_id action) \<noteq> Some True) creativeActions"

definition isCreativePhase :: "HookState \<Rightarrow> bool" where
  "isCreativePhase st = (phase (gameState st) = Creative)"

section \<open>Runs of the game and worked positions\<close>

text \<open>The calls a user of the hook can make, and the state after a list of them.
  \<open>move\<close> and \<open>moves\<close> are the engine, \<open>rnd\<close> the generator.\<close>

datatype Input =
    Move Square Square
  | Action string "Square list"
  | Select Square
  | Reset

fun step ::
  "(Chess \<Rightarrow> Square \<Rightarrow> Square \<Rightarrow> Chess option) \<Rightarrow> (Chess \<Rightarrow> Square \<Rightarrow> Square list)
    \<Rightarrow> (nat \<Rightarrow> nat) \<Rightarrow> Input \<Rightarrow> HookState \<Rightarrow> HookState" where
  "step move moves rnd (Move from to) st = snd (makeMove move st from to)"
| "step move moves rnd (Action actionId args) st = snd (executeAction rnd st actionId args)"
| "step move moves rnd (Select square) st = selectSquare move moves st square"
| "step move moves rnd Reset st = resetGame st"

definition run ::
  "(Chess \<Rightarrow> Square \<Rightarrow> Square \<Rightarrow> Chess option) \<Rightarrow> (Chess \<Rightarrow> Square \<Rightarrow> Square list)
    \<Rightarrow> (nat \<Rightarrow> nat) \<Rightarrow> Input list \<Rightarrow> HookState \<Rightarrow> HookState" where
  "run move moves rnd inputs st = fold (step move moves rnd) inputs st"

fun isReset :: "Input \<Rightarrow> bool" where
  "isReset Reset = True"
| "isReset _ = False"

text \<open>A stand-in for the engine in the worked examples: it accepts the step of a piece of
  the side to move onto an empty square and passes the turn. The examples use it only for
  moves that are legal chess.\<close>

definition relocate :: "Chess \<Rightarrow> Square \<Rightarrow> Square \<Rightarrow> Chess option" where
  "relocate c from to =
     (case get c (Some from) of
        None \<Rightarrow> None
      | Some p \<Rightarrow>
          if color p = turn c \<and> get c (Some to) = None
          then Some ((put (remove c (Some from)) p (Some to))\<lparr>turn := getOpponentColor (turn c)\<rparr>)
          else None)"

definition noMoves :: "Chess \<Rightarrow> Square \<Rightarrow> Square list" where
  "noMoves c square = []"

text \<open>Two runs of the generator: every roll a 1, every roll a 6.\<close>

definition lowRolls :: "nat \<Rightarrow> nat" where
  "lowRolls i = 0"

definition highRolls :: "nat \<Rightarrow> nat" where
  "highRolls i = 5"

text \<open>The game after twenty half-moves in which both sides move a knight out and back
  (Nf3 Nf6 Ng1 Ng8, five times): the starting position again, White to move, creative
  phase.\<close>

definition creativeStart :: HookState where
  "creativeStart =
     useChessGame\<lparr>gameState := initialGameState\<lparr>phase := Creative, halfMoves := 20,
       lastMove := Some ((5, 6), (6, 8))\<rparr>\<rparr>"

text \<open>That game: the four half-moves of one round, five rounds.\<close>

definition shuffleCycle :: "Input list" where
  "shuffleCycle = [Move (6, 1) (5, 3), Move (6, 8) (5, 6), Move (5, 3) (6, 1), Move (5, 6) (6, 8)]"

definition knightShuffle :: "Input list" where
  "knightShuffle = concat (replicate 5 shuffleCycle)"

text \<open>A small creative-phase position, White to act: white rook a1 and white knight b3, black
  rook b1. From b1 the white pieces are at Manhattan distance 1 and 2.\<close>

definition smallPosition :: Chess where
  "smallPosition =
     \<lparr>board = [(0, 1) \<mapsto> \<lparr>type = R, color = W\<rparr>, (1, 3) \<mapsto> \<lparr>type = N, color = W\<rparr>,
               (1, 1) \<mapsto> \<lparr>type = R, color = B\<rparr>],
      turn = W\<rparr>"

definition smallGame :: GameState where
  "smallGame = initialGameState\<lparr>chess := smallPosition, phase := Creative, halfMoves := 40\<rparr>"

text \<open>A run of the generator whose first three rolls are 6, 1 and 4, and one that agrees
  with it on these three draws only.\<close>

definition mixedRolls :: "nat \<Rightarrow> nat" where
  "mixedRolls i = (if i = 0 then 5 else if i = 1 then 0 else 3)"

definition mixedThenLow :: "nat \<Rightarrow> nat" where
  "mixedThenLow i = (if i < 3 then mixedRolls i else 0)"

text \<open>The states of two worked games from \<open>creativeStart\<close>. After White's Shield on the
  pawn a2; after White's Loot Drop; after Black's Rubber-Band Shot on the pawn e2 that follows
  it. Each differs from the state before only in the turn and the registry.\<close>

definition afterShield :: HookState where
  "afterShield =
     creativeStart\<lparr>gameState := (gameState creativeStart)\<lparr>currentPlayer := B\<rparr>,
                   actionRegistry := (actionRegistry creativeStart)(''shield'' \<mapsto> True)\<rparr>"

definition afterLootDrop :: HookState where
  "afterLootDrop =
     creativeStart\<lparr>gameState := (gameState creativeStart)\<lparr>currentPlayer := B\<rparr>,
                   actionRegistry := (actionRegistry creativeStart)(''lootDrop'' \<mapsto> True)\<rparr>"

definition afterRubberBand :: HookState where
  "afterRubberBand =
     afterLootDrop\<lparr>gameState := (gameState afterLootDrop)\<lparr>currentPlayer := W\<rparr>,
                   actionRegistry := (actionRegistry afterLootDrop)(''rubberBand'' \<mapsto> True)\<rparr>"

text \<open>The state after White's Sniper Shot on the black king e8 from \<open>creativeStart\<close>: the
  king is gone, Black is to act.\<close>

definition afterSniperShot :: HookState where
  "afterSniperShot =
     creativeStart\<lparr>gameState := (gameState creativeStart)
                     \<lparr>chess := remove newChess (Some (4, 8)), currentPlayer := B\<rparr>,
                   actionRegistry := (actionRegistry creativeStart)(''sniperShot'' \<mapsto> True)\<rparr>"

section \<open>The statements of the specification, in its words\<close>

text \<open>The phase rule: creative exactly from 20 half-moves on.\<close>

definition phaseInv :: "HookState \<Rightarrow> bool" where
  "phaseInv st = (phase (gameState st) = Creative \<longleftrightarrow> 20 \<le> halfMoves (gameState st))"

text \<open>The first square, in ascending rank-then-file order, that holds a piece of colour
  \<open>col\<close> and type \<open>t\<close>.\<close>

definition firstInScan :: "Chess \<Rightarrow> PieceColor \<Rightarrow> PieceType \<Rightarrow> Square option" where
  "firstInScan c col t =
     find (\<lambda>sq. case get c (Some sq) of
                  None \<Rightarrow> False
                | Some p \<Rightarrow> color p = col \<and> type p = t) allSquares"

text \<open>Robot Proxy in the words of its description: the first opponent piece of the pilot's
  type, else the first opponent pawn, else the first queen, else the first king, else
  nothing.\<close>

definition robotProxy_spec :: "Chess \<Rightarrow> Piece \<Rightarrow> Chess" where
  "robotProxy_spec c pilot =
     (let opp = getOpponentColor (color pilot) in
      case firstInScan c opp (type pilot) of
        Some sq \<Rightarrow> remove c (Some sq)
      | None \<Rightarrow>
         (case firstInScan c opp P of
            Some sq \<Rightarrow> remove c (Some sq)
          | None \<Rightarrow>
             (case firstInScan c opp Q of
                Some sq \<Rightarrow> remove c (Some sq)
              | None \<Rightarrow>
                 (case firstInScan c opp K of
                    Some sq \<Rightarrow> remove c (Some sq)
                  | None \<Rightarrow> c))))"

text \<open>Rocket Barrage in the words of the specification: the targets are taken left to right,
  the \<open>i\<close>-th of them meets draw number \<open>n + i\<close>, and it is removed when that roll is 4 to
  6.\<close>

definition barrage_spec :: "(nat \<Rightarrow> nat) \<Rightarrow> nat \<Rightarrow> Square list \<Rightarrow> Chess \<Rightarrow> Chess" where
  "barrage_spec rnd n targets c =
     fold (\<lambda>(i, square) c. if 4 \<le> roll rnd i then remove c (Some square) else c)
          (enumerate n targets) c"

section \<open>Basic facts\<close>

lemma getActionById_mem: "getActionById i = Some a \<Longrightarrow> a \<in> set creativeActions"
  unfolding getActionById_def by (auto simp: find_Some_iff)

text \<open>An action's \<open>execute\<close> returns the state it was given with at most the position
  replaced.\<close>

lemma execute_frame:
  assumes "a \<in> set creativeActions" "execute a rnd n gs args = Some (gs', n')"
  shows "gs' = gs\<lparr>chess := chess gs'\<rparr>"
  using assms
  unfolding creativeActions_def targeted_def untargeted_def copying_def nuke_action_def
    rocketBarrage_action_def
  by (auto simp: noDraw_def orThrow_def snip_execute_def rubberBand_execute_def nuke_execute_def
      jobApplication_execute_def robotProxy_execute_def swapPlaces_execute_def shield_execute_def
      empBlast_execute_def lootDrop_execute_def timeFreeze_execute_def spyDrone_execute_def
      cloneRay_execute_def sniperShot_execute_def puzzleTrap_execute_def rocketBarrage_execute_def
      Let_def split: option.splits prod.splits)

lemma executeAction_accept:
  assumes "actionRegistry st i \<noteq> Some True" "phase (gameState st) = Creative"
    "getActionById i = Some a" "targetAccepted a (gameState st) args = Some True"
    "execute a rnd (randomCalls st) (gameState st) args = Some (gs', n)"
  shows "executeAction rnd st i args =
     (True, \<lparr>gameState = gs'\<lparr>gameOver := fst (checkWinCondition (chess gs')),
                                winner := snd (checkWinCondition (chess gs')),
                                currentPlayer := getOpponentColor (currentPlayer (gameState st))\<rparr>,
              actionRegistry = (actionRegistry st)(i \<mapsto> True),
              randomCalls = n\<rparr>)"
  using assms unfolding executeAction_def getOpponentColor_def
  by (simp add: Let_def split: prod.splits)

lemma executeAction_reject:
  "actionRegistry st i = Some True \<or> phase (gameState st) \<noteq> Creative
     \<Longrightarrow> executeAction rnd st i args = (False, st)"
  "getActionById i = None \<Longrightarrow> executeAction rnd st i args = (False, st)"
  "getActionById i = Some a \<Longrightarrow> targetAccepted a (gameState st) args \<noteq> Some True
     \<Longrightarrow> executeAction rnd st i args = (False, st)"
  "getActionById i = Some a \<Longrightarrow> execute a rnd (randomCalls st) (gameState st) args = None
     \<Longrightarrow> executeAction rnd st i args = (False, st)"
  unfolding executeAction_def Let_def
  by (simp_all split: option.splits bool.splits)

lemma executeAction_True:
  assumes "fst (executeAction rnd st i args)"
  obtains a gs' n where "getActionById i = Some a"
    "actionRegistry st i \<noteq> Some True" "phase (gameState st) = Creative"
    "targetAccepted a (gameState st) args = Some True"
    "execute a rnd (randomCalls st) (gameState st) args = Some (gs', n)"
proof -
  have r: "actionRegistry st i \<noteq> Some True \<and> phase (gameState st) = Creative"
  proof (rule ccontr)
    assume "\<not> ?thesis"
    then have "actionRegistry st i = Some True \<or> phase (gameState st) \<noteq> Creative" by blast
    from executeAction_reject(1)[OF this, of rnd args] assms show False by simp
  qed
  obtain a where a: "getActionById i = Some a"
  proof (cases "getActionById i")
    case None
    from executeAction_reject(2)[OF this, of rnd st args] assms show ?thesis by simp
  qed blast
  have t: "targetAccepted a (gameState st) args = Some True"
  proof (rule ccontr)
    assume "\<not> ?thesis"
    from executeAction_reject(3)[OF a this, of rnd] assms show False by simp
  qed
  obtain gs' n where e: "execute a rnd (randomCalls st) (gameState st) args = Some (gs', n)"
  proof (cases "execute a rnd (randomCalls st) (gameState st) args")
    case None
    from executeAction_reject(4)[OF a this] assms show ?thesis by simp
  next
    case (Some p)
    then show ?thesis using that by (cases p) blast
  qed
  show thesis using that a r t e by blast
qed

lemma executeAction_False:
  assumes "\<not> fst (executeAction rnd st i args)"
  shows "snd (executeAction rnd st i args) = st"
proof (cases "actionRegistry st i = Some True \<or> phase (gameState st) \<noteq> Creative")
  case True
  then show ?thesis by (simp add: executeAction_reject(1))
next
  case r: False
  show ?thesis
  proof (cases "getActionById i")
    case None
    then show ?thesis by (simp add: executeAction_reject(2))
  next
    case (Some a)
    show ?thesis
    proof (cases "targetAccepted a (gameState st) args = Some True")
      case False
      then show ?thesis by (simp add: executeAction_reject(3)[OF Some])
    next
      case t: True
      show ?thesis
      proof (cases "execute a rnd (randomCalls st) (gameState st) args")
        case None
        then show ?thesis by (simp add: executeAction_reject(4)[OF Some])
      next
        case (Some p)
        obtain gs' n where "p = (gs', n)" by (cases p)
        with assms r \<open>getActionById i = Some a\<close> t Some show ?thesis
          using executeAction_accept[of st i a args rnd gs' n] by simp
      qed
    qed
  qed
qed

text \<open>What a successful action leaves and changes in the turn fields.\<close>

lemma executeAction_fields:
  assumes "fst (executeAction rnd st i args)"
  shows "currentPlayer (gameState (snd (executeAction rnd st i args)))
           = getOpponentColor (currentPlayer (gameState st))"
    and "halfMoves (gameState (snd (executeAction rnd st i args))) = halfMoves (gameState st)"
    and "phase (gameState (snd (executeAction rnd st i args))) = phase (gameState st)"
    and "actionRegistry (snd (executeAction rnd st i args)) i = Some True"
    and "(gameOver (gameState (snd (executeAction rnd st i args))),
          winner (gameState (snd (executeAction rnd st i args))))
           = checkWinCondition (chess (gameState (snd (executeAction rnd st i args))))"
proof -
  from assms obtain a gs' n where
    a: "getActionById i = Some a"
    and r: "actionRegistry st i \<noteq> Some True" "phase (gameState st) = Creative"
    and t: "targetAccepted a (gameState st) args = Some True"
    and e: "execute a rnd (randomCalls st) (gameState st) args = Some (gs', n)"
    by (rule executeAction_True)
  note s = executeAction_accept[OF r a t e]
  have f: "gs' = (gameState st)\<lparr>chess := chess gs'\<rparr>"
    using execute_frame[OF getActionById_mem[OF a] e] .
  show "currentPlayer (gameState (snd (executeAction rnd st i args)))
           = getOpponentColor (currentPlayer (gameState st))"
    by (simp add: s)
  have "halfMoves gs' = halfMoves (gameState st)" by (subst f) simp
  then show "halfMoves (gameState (snd (executeAction rnd st i args))) = halfMoves (gameState st)"
    by (simp add: s)
  have "phase gs' = phase (gameState st)" by (subst f) simp
  then show "phase (gameState (snd (executeAction rnd st i args))) = phase (gameState st)"
    by (simp add: s)
  show "actionRegistry (snd (executeAction rnd st i args)) i = Some True"
    by (simp add: s)
  show "(gameOver (gameState (snd (executeAction rnd st i args))),
          winner (gameState (snd (executeAction rnd st i args))))
           = checkWinCondition (chess (gameState (snd (executeAction rnd st i args))))"
    by (simp add: s)
qed

lemma makeMove_True:
  assumes "fst (makeMove move st from to)"
  shows "\<exists>c. (\<exists>c0. fenCopy (chess (gameState st)) = Some c0 \<and> move c0 from to = Some c) \<and>
     snd (makeMove move st from to) =
       st\<lparr>gameState := (gameState st)\<lparr>chess := c, currentPlayer := turn c,
            phase := (if halfMoves (gameState st) + 1 \<ge> 20 then Creative else Standard),
            halfMoves := halfMoves (gameState st) + 1, selectedSquare := None, validMoves := [],
            lastMove := Some (from, to), gameOver := fst (checkWinCondition c),
            winner := snd (checkWinCondition c)\<rparr>\<rparr>"
  using assms unfolding makeMove_def CREATIVE_PHASE_THRESHOLD_def
  by (auto simp: Let_def split: option.splits prod.splits)

lemma makeMove_False:
  "\<not> fst (makeMove move st from to) \<Longrightarrow> snd (makeMove move st from to) = st"
  unfolding makeMove_def by (auto simp: Let_def split: option.splits prod.splits)

text \<open>The scan list, written out.\<close>

lemma allSquares_eval: "allSquares = [(0,1),(1,1),(2,1),(3,1),(4,1),(5,1),(6,1),(7,1),
  (0,2),(1,2),(2,2),(3,2),(4,2),(5,2),(6,2),(7,2),
  (0,3),(1,3),(2,3),(3,3),(4,3),(5,3),(6,3),(7,3),
  (0,4),(1,4),(2,4),(3,4),(4,4),(5,4),(6,4),(7,4),
  (0,5),(1,5),(2,5),(3,5),(4,5),(5,5),(6,5),(7,5),
  (0,6),(1,6),(2,6),(3,6),(4,6),(5,6),(6,6),(7,6),
  (0,7),(1,7),(2,7),(3,7),(4,7),(5,7),(6,7),(7,7),
  (0,8),(1,8),(2,8),(3,8),(4,8),(5,8),(6,8),(7,8)]"
  unfolding allSquares_def by (simp add: upt_rec)

lemma set_allSquares: "sq \<in> set allSquares \<longleftrightarrow> onBoard sq"
  unfolding allSquares_def onBoard_def by (cases sq) (auto simp: image_iff)

lemma countPieces_fold:
  "fold (\<lambda>square (whitePieces, blackPieces).
             case get ch (Some square) of
               None \<Rightarrow> (whitePieces, blackPieces)
             | Some piece \<Rightarrow>
                 if color piece = W then (whitePieces + 1, blackPieces)
                 else (whitePieces, blackPieces + 1)) xs (w, b)
   = (w + length (filter (\<lambda>sq. \<exists>p. get ch (Some sq) = Some p \<and> color p = W) xs),
      b + length (filter (\<lambda>sq. \<exists>p. get ch (Some sq) = Some p \<and> color p \<noteq> W) xs))"
  by (induction xs arbitrary: w b) (auto split: option.splits)

lemma length_getPiecesOfColor:
  "length (getPiecesOfColor ch c)
     = length (filter (\<lambda>sq. \<exists>p. get ch (Some sq) = Some p \<and> color p = c) allSquares)"
  unfolding getPiecesOfColor_def map_filter_def
  by (auto intro!: arg_cong[where f=length] filter_cong split: option.splits)

lemma not_W: "(c \<noteq> W) = (c = B)"
  by (cases c) auto

lemma countPieces_eq:
  "countPieces ch = (length (getPiecesOfColor ch W), length (getPiecesOfColor ch B))"
  unfolding countPieces_def countPieces_fold length_getPiecesOfColor by (simp add: not_W)

lemma fenCopy_eq: "fenCopy ch = (if validateFen ch then Some ch else None)"
  by (simp add: fenCopy_def)

lemma validateFen_newChess: "validateFen newChess"
  unfolding validateFen_def kingCount_def pawnOnEdge_def getPiecesOfColor_def allSquares_eval
  by (simp add: get_def onBoard_def newChess_def startBoard_def backRank_def)

lemma checkWinCondition_newChess: "checkWinCondition newChess = (False, None)"
  unfolding checkWinCondition_def countPieces_def allSquares_eval
  by (simp add: get_def onBoard_def newChess_def startBoard_def)

lemma initialRegistry_fold:
  "fold (\<lambda>action registry. registry(action_id action \<mapsto> False)) xs m i =
     (if i \<in> action_id ` set xs then Some False else m i)"
  by (induction xs arbitrary: m) auto

lemma initialRegistry_unused: "initialRegistry i \<noteq> Some True"
  unfolding initialRegistry_def initialRegistry_fold by simp

lemma creativeStart_fields:
  "phase (gameState creativeStart) = Creative" "actionRegistry creativeStart = initialRegistry"
  "randomCalls creativeStart = 0" "chess (gameState creativeStart) = newChess"
  "currentPlayer (gameState creativeStart) = W" "halfMoves (gameState creativeStart) = 20"
  by (simp_all add: creativeStart_def useChessGame_def initialGameState_def)

lemma targetAccepted_targeted: "targetAccepted (targeted i nm v e) gs args = Some (v gs args)"
  by (simp add: targetAccepted_def targeted_def returns_def)

lemma targetAccepted_untargeted: "targetAccepted (untargeted i nm e) gs args = Some True"
  by (simp add: targetAccepted_def untargeted_def)

lemma targetAccepted_copying: "targetAccepted (copying i nm v e) gs args = Some (v gs args)"
  by (simp add: targetAccepted_def copying_def returns_def)

lemma execute_copying:
  "execute (copying i nm v e) rnd n gs args = map_option (\<lambda>g. (g, n)) (e gs args)"
  by (simp add: copying_def orThrow_def)

lemma execute_targeted: "execute (targeted i nm v e) rnd n gs args = Some (e gs args, n)"
  by (simp add: targeted_def noDraw_def)

lemma execute_untargeted: "execute (untargeted i nm e) rnd n gs args = Some (e gs args, n)"
  by (simp add: untargeted_def noDraw_def)

lemma getActionById_empBlast:
  "getActionById ''empBlast'' = Some (untargeted ''empBlast'' ''EMP Blast'' empBlast_execute)"
  unfolding getActionById_def creativeActions_def
  by (simp add: targeted_def untargeted_def copying_def nuke_action_def rocketBarrage_action_def)

lemma getActionById_snip:
  "getActionById ''snip'' = Some (copying ''snip'' ''Snip'' snip_validateTarget snip_execute)"
  unfolding getActionById_def creativeActions_def
  by (simp add: targeted_def untargeted_def copying_def nuke_action_def rocketBarrage_action_def)

lemma empBlast_creativeStart: "fst (executeAction rnd creativeStart ''empBlast'' [])"
  by (subst executeAction_accept[OF _ _ getActionById_empBlast])
     (simp_all add: creativeStart_fields initialRegistry_unused targetAccepted_untargeted
        execute_untargeted)

lemma relocate_e2e3: "relocate newChess (4, 2) (4, 3) =
   Some \<lparr>board = startBoard((4, 2) := None, (4, 3) \<mapsto> \<lparr>type = P, color = W\<rparr>), turn = B\<rparr>"
  by (simp add: relocate_def get_def onBoard_def newChess_def startBoard_def put_def remove_def
      getOpponentColor_def)

lemma makeMove_e2e3: "fst (makeMove relocate creativeStart (4, 2) (4, 3))"
  by (simp add: makeMove_def creativeStart_def useChessGame_def initialGameState_def fenCopy_eq
      validateFen_newChess relocate_e2e3 split: prod.splits)

lemma snip_empty_rejected:
  assumes "get (chess (gameState st)) (Some sq) = None"
  shows "executeAction rnd st ''snip'' [sq] = (False, st)"
  by (rule executeAction_reject(3)[OF getActionById_snip])
     (simp add: targetAccepted_copying snip_validateTarget_def arg_def assms)

lemma get_newChess_e4: "get newChess (Some (4, 4)) = None"
  by (simp add: get_def onBoard_def newChess_def startBoard_def)

section \<open>Turn fields after an action and after a move\<close>

text \<open>C1, as the code has it: a successful \<open>executeAction\<close> passes \<open>currentPlayer\<close> to the
  other colour and leaves \<open>halfMoves\<close> as it was; a successful \<open>makeMove\<close> increments
  \<open>halfMoves\<close> by exactly 1 and sets \<open>currentPlayer\<close> to the side to move of the engine's
  position after the move.\<close>

theorem executeAction_turn_and_halfMoves:
  "(fst (executeAction rnd st actionId args) \<longrightarrow>
      currentPlayer (gameState (snd (executeAction rnd st actionId args)))
        = getOpponentColor (currentPlayer (gameState st)) \<and>
      halfMoves (gameState (snd (executeAction rnd st actionId args)))
        = halfMoves (gameState st)) \<and>
   (fst (makeMove move st from to) \<longrightarrow>
      halfMoves (gameState (snd (makeMove move st from to))) = halfMoves (gameState st) + 1 \<and>
      currentPlayer (gameState (snd (makeMove move st from to)))
        = turn (chess (gameState (snd (makeMove move st from to)))))"
proof (intro conjI impI)
  assume m: "fst (makeMove move st from to)"
  from makeMove_True[OF m] obtain c where
    s: "snd (makeMove move st from to) =
       st\<lparr>gameState := (gameState st)\<lparr>chess := c, currentPlayer := turn c,
            phase := (if halfMoves (gameState st) + 1 \<ge> 20 then Creative else Standard),
            halfMoves := halfMoves (gameState st) + 1, selectedSquare := None, validMoves := [],
            lastMove := Some (from, to), gameOver := fst (checkWinCondition c),
            winner := snd (checkWinCondition c)\<rparr>\<rparr>" by blast
  show "halfMoves (gameState (snd (makeMove move st from to))) = halfMoves (gameState st) + 1"
    by (simp add: s)
  show "currentPlayer (gameState (snd (makeMove move st from to)))
        = turn (chess (gameState (snd (makeMove move st from to))))"
    by (simp add: s)
qed (simp_all add: executeAction_fields)

text \<open>C1 as stated fails: in the creative phase at 20 half-moves, EMP Blast succeeds and
  the counter is still 20, not 21.\<close>

theorem executeAction_halfMoves_counterexample:
  "fst (executeAction lowRolls creativeStart ''empBlast'' []) \<and>
   halfMoves (gameState creativeStart) = 20 \<and>
   halfMoves (gameState (snd (executeAction lowRolls creativeStart ''empBlast'' []))) \<noteq> 21"
  using executeAction_fields(2)[OF empBlast_creativeStart, of lowRolls]
  by (simp add: empBlast_creativeStart creativeStart_fields)

text \<open>The theorem of C1 at that action and at the move e2-e3.\<close>

theorem executeAction_turn_and_halfMoves_witness:
  "currentPlayer (gameState (snd (executeAction lowRolls creativeStart ''empBlast'' []))) = B \<and>
   halfMoves (gameState (snd (executeAction lowRolls creativeStart ''empBlast'' []))) = 20 \<and>
   halfMoves (gameState (snd (makeMove relocate creativeStart (4, 2) (4, 3)))) = 21"
  using executeAction_turn_and_halfMoves
      [of lowRolls creativeStart "''empBlast''" "[]" relocate "(4, 2)" "(4, 3)"]
    empBlast_creativeStart[of lowRolls] makeMove_e2e3
  by (simp add: getOpponentColor_def creativeStart_fields)

section \<open>Win evaluation\<close>

text \<open>C3, as the code has it: \<open>checkWinCondition\<close> counts the pieces of each colour; when
  White's count is 0 the game is over and Black is the winner, whatever Black's count is;
  otherwise, when Black's count is 0, the game is over and White is the winner; otherwise the
  game is not over and there is no winner. Every successful move and every successful action
  stores this evaluation of the new position in \<open>gameOver\<close> and \<open>winner\<close>.\<close>

theorem checkWinCondition_counts:
  "checkWinCondition ch =
     (if length (getPiecesOfColor ch W) = 0 then (True, Some B)
      else if length (getPiecesOfColor ch B) = 0 then (True, Some W)
      else (False, None)) \<and>
   (fst (makeMove move st from to) \<longrightarrow>
      (gameOver (gameState (snd (makeMove move st from to))),
       winner (gameState (snd (makeMove move st from to))))
        = checkWinCondition (chess (gameState (snd (makeMove move st from to))))) \<and>
   (fst (executeAction rnd st actionId args) \<longrightarrow>
      (gameOver (gameState (snd (executeAction rnd st actionId args))),
       winner (gameState (snd (executeAction rnd st actionId args))))
        = checkWinCondition (chess (gameState (snd (executeAction rnd st actionId args)))))"
proof (intro conjI impI)
  show "checkWinCondition ch =
     (if length (getPiecesOfColor ch W) = 0 then (True, Some B)
      else if length (getPiecesOfColor ch B) = 0 then (True, Some W)
      else (False, None))"
    unfolding checkWinCondition_def countPieces_eq by simp
next
  assume "fst (makeMove move st from to)"
  from makeMove_True[OF this] obtain c where
    s: "snd (makeMove move st from to) =
       st\<lparr>gameState := (gameState st)\<lparr>chess := c, currentPlayer := turn c,
            phase := (if halfMoves (gameState st) + 1 \<ge> 20 then Creative else Standard),
            halfMoves := halfMoves (gameState st) + 1, selectedSquare := None, validMoves := [],
            lastMove := Some (from, to), gameOver := fst (checkWinCondition c),
            winner := snd (checkWinCondition c)\<rparr>\<rparr>" by blast
  show "(gameOver (gameState (snd (makeMove move st from to))),
       winner (gameState (snd (makeMove move st from to))))
        = checkWinCondition (chess (gameState (snd (makeMove move st from to))))"
    by (simp add: s)
next
  assume "fst (executeAction rnd st actionId args)"
  then show "(gameOver (gameState (snd (executeAction rnd st actionId args))),
       winner (gameState (snd (executeAction rnd st actionId args))))
        = checkWinCondition (chess (gameState (snd (executeAction rnd st actionId args))))"
    by (rule executeAction_fields(5))
qed

text \<open>C3 as stated fails when both counts are 0: on the empty board the result names
  Black the winner instead of no winner.\<close>

theorem checkWinCondition_both_zero_counterexample:
  "length (getPiecesOfColor \<lparr>board = Map.empty, turn = W\<rparr> W) = 0 \<and>
   length (getPiecesOfColor \<lparr>board = Map.empty, turn = W\<rparr> B) = 0 \<and>
   checkWinCondition \<lparr>board = Map.empty, turn = W\<rparr> = (True, Some B)"
  unfolding checkWinCondition_def countPieces_eq length_getPiecesOfColor
  by (simp add: get_def)

text \<open>The theorem of C3 at the starting position, the move e2-e3 and EMP Blast.\<close>

theorem checkWinCondition_counts_witness:
  "checkWinCondition newChess = (False, None) \<and>
   (gameOver (gameState (snd (makeMove relocate creativeStart (4, 2) (4, 3)))),
    winner (gameState (snd (makeMove relocate creativeStart (4, 2) (4, 3)))))
     = checkWinCondition (chess (gameState (snd (makeMove relocate creativeStart (4, 2) (4, 3))))) \<and>
   (gameOver (gameState (snd (executeAction lowRolls creativeStart ''empBlast'' []))),
    winner (gameState (snd (executeAction lowRolls creativeStart ''empBlast'' []))))
     = checkWinCondition (chess (gameState (snd (executeAction lowRolls creativeStart ''empBlast'' []))))"
  using checkWinCondition_counts
      [of newChess relocate creativeStart "(4, 2)" "(4, 3)" lowRolls "''empBlast''" "[]"]
    empBlast_creativeStart[of lowRolls] makeMove_e2e3
  by (simp add: checkWinCondition_newChess)

section \<open>Rejected actions\<close>

text \<open>C4: an \<open>executeAction\<close> call that returns false leaves the whole state as it was: game
  state (board and turn fields), action registry and generator. It returns false in the
  standard phase, for an action already used, and when the action's \<open>validateTarget\<close> does
  not return true; Snip on an empty square is such a call, so the registry entry of
  \<open>snip\<close> keeps its value.\<close>

theorem rejected_action_unchanged:
  "(\<not> fst (executeAction rnd st actionId args) \<longrightarrow>
      snd (executeAction rnd st actionId args) = st) \<and>
   (phase (gameState st) \<noteq> Creative \<longrightarrow> executeAction rnd st actionId args = (False, st)) \<and>
   (actionRegistry st actionId = Some True \<longrightarrow> executeAction rnd st actionId args = (False, st)) \<and>
   (\<forall>a v. getActionById actionId = Some a \<longrightarrow> validateTarget a = Some v \<longrightarrow> needsTarget a \<longrightarrow>
        v (gameState st) args \<noteq> Some True \<longrightarrow>
        executeAction rnd st actionId args = (False, st)) \<and>
   (get (chess (gameState st)) (Some sq) = None \<longrightarrow>
      executeAction rnd st ''snip'' [sq] = (False, st))"
proof (intro conjI impI allI)
  fix a v
  assume a: "getActionById actionId = Some a" and v: "validateTarget a = Some v"
    and n: "needsTarget a" and f: "v (gameState st) args \<noteq> Some True"
  have "targetAccepted a (gameState st) args \<noteq> Some True"
    using v n f by (simp add: targetAccepted_def)
  then show "executeAction rnd st actionId args = (False, st)"
    by (rule executeAction_reject(3)[OF a])
qed (simp_all add: executeAction_False executeAction_reject(1) snip_empty_rejected)

text \<open>The theorem of C4 at three rejected calls: Snip in the standard phase, EMP Blast a
  second time, and Snip on the empty square e4 in the creative phase.\<close>

theorem rejected_action_unchanged_witness:
  "executeAction lowRolls useChessGame ''snip'' [(0, 7)] = (False, useChessGame) \<and>
   executeAction lowRolls (snd (executeAction lowRolls creativeStart ''empBlast'' [])) ''empBlast'' []
     = (False, snd (executeAction lowRolls creativeStart ''empBlast'' [])) \<and>
   executeAction lowRolls creativeStart ''snip'' [(4, 4)] = (False, creativeStart) \<and>
   actionRegistry (snd (executeAction lowRolls creativeStart ''snip'' [(4, 4)])) ''snip''
     = Some False"
proof -
  have p: "phase (gameState useChessGame) \<noteq> Creative"
    by (simp add: useChessGame_def initialGameState_def)
  have u: "actionRegistry (snd (executeAction lowRolls creativeStart ''empBlast'' [])) ''empBlast''
       = Some True"
    by (rule executeAction_fields(4)[OF empBlast_creativeStart])
  have e: "get (chess (gameState creativeStart)) (Some (4, 4)) = None"
    by (simp add: creativeStart_fields get_newChess_e4)
  have r: "initialRegistry ''snip'' = Some False"
    unfolding initialRegistry_def initialRegistry_fold
    by (simp add: creativeActions_def targeted_def copying_def)
  show ?thesis
    using rejected_action_unchanged[of lowRolls useChessGame "''snip''" "[(0, 7)]" "(0, 7)"]
      rejected_action_unchanged[of lowRolls "snd (executeAction lowRolls creativeStart ''empBlast'' [])"
         "''empBlast''" "[]" "(0, 7)"]
      rejected_action_unchanged[of lowRolls creativeStart "''snip''" "[(4, 4)]" "(4, 4)"]
      p u e r
    by (simp add: creativeStart_fields)
qed

section \<open>A fresh game\<close>

text \<open>C5: the state the hook starts with, and the state after \<open>resetGame\<close> from any
  state, has \<open>halfMoves\<close> 0 and the standard phase, and each of the 15 actions of the catalogue
  (their ids distinct) is entered as unused in the registry, so that all 15 are available. The
  state has no component for status effects, so none is present. Neither function takes a
  seed.\<close>

theorem fresh_game:
  "halfMoves (gameState useChessGame) = 0 \<and>
   phase (gameState useChessGame) = Standard \<and>
   length creativeActions = 15 \<and>
   distinct (map action_id creativeActions) \<and>
   map (\<lambda>a. actionRegistry useChessGame (action_id a)) creativeActions = replicate 15 (Some False) \<and>
   getAvailableActions useChessGame = creativeActions \<and>
   gameState (resetGame st) = gameState useChessGame \<and>
   actionRegistry (resetGame st) = actionRegistry useChessGame"
proof -
  have ids: "map action_id creativeActions =
     [''snip'', ''rubberBand'', ''nuke'', ''jobApplication'', ''robotProxy'', ''swapPlaces'',
      ''shield'', ''empBlast'', ''lootDrop'', ''timeFreeze'', ''cloneRay'', ''spyDrone'',
      ''sniperShot'', ''puzzleTrap'', ''rocketBarrage'']"
    by (simp add: creativeActions_def targeted_def untargeted_def copying_def nuke_action_def
        rocketBarrage_action_def)
  have len: "length creativeActions = 15"
    by (simp add: creativeActions_def)
  have d: "distinct (map action_id creativeActions)"
    unfolding ids by simp
  have reg: "\<And>a. a \<in> set creativeActions \<Longrightarrow> initialRegistry (action_id a) = Some False"
    unfolding initialRegistry_def initialRegistry_fold by simp
  have m: "map (\<lambda>a. initialRegistry (action_id a)) creativeActions = replicate 15 (Some False)"
  proof -
    have "map (\<lambda>a. initialRegistry (action_id a)) creativeActions
        = map (\<lambda>a. Some False) creativeActions"
      by (rule map_cong[OF refl]) (rule reg)
    then show ?thesis by (simp only: map_replicate_const len)
  qed
  have av: "filter (\<lambda>action. initialRegistry (action_id action) \<noteq> Some True) creativeActions
      = creativeActions"
    by (simp add: initialRegistry_unused)
  show ?thesis
    using len d m av
    by (simp add: useChessGame_def initialGameState_def resetGame_def getAvailableActions_def)
qed

section \<open>The phase\<close>

lemma makeMove_phaseInv: "phaseInv st \<Longrightarrow> phaseInv (snd (makeMove move st from to))"
proof (cases "fst (makeMove move st from to)")
  case True
  from makeMove_True[OF this] obtain c where
    s: "snd (makeMove move st from to) =
       st\<lparr>gameState := (gameState st)\<lparr>chess := c, currentPlayer := turn c,
            phase := (if halfMoves (gameState st) + 1 \<ge> 20 then Creative else Standard),
            halfMoves := halfMoves (gameState st) + 1, selectedSquare := None, validMoves := [],
            lastMove := Some (from, to), gameOver := fst (checkWinCondition c),
            winner := snd (checkWinCondition c)\<rparr>\<rparr>" by blast
  show ?thesis unfolding s phaseInv_def by simp
next
  case False
  assume "phaseInv st"
  then show ?thesis by (simp add: makeMove_False[OF False])
qed

lemma makeMove_halfMoves:
  "halfMoves (gameState st) \<le> halfMoves (gameState (snd (makeMove move st from to)))"
proof (cases "fst (makeMove move st from to)")
  case True
  from makeMove_True[OF this] obtain c where
    s: "snd (makeMove move st from to) =
       st\<lparr>gameState := (gameState st)\<lparr>chess := c, currentPlayer := turn c,
            phase := (if halfMoves (gameState st) + 1 \<ge> 20 then Creative else Standard),
            halfMoves := halfMoves (gameState st) + 1, selectedSquare := None, validMoves := [],
            lastMove := Some (from, to), gameOver := fst (checkWinCondition c),
            winner := snd (checkWinCondition c)\<rparr>\<rparr>" by blast
  show ?thesis unfolding s by simp
next
  case False
  then show ?thesis by (simp add: makeMove_False[OF False])
qed

lemma executeAction_phase_halfMoves:
  "phase (gameState (snd (executeAction rnd st i args))) = phase (gameState st)"
  "halfMoves (gameState (snd (executeAction rnd st i args))) = halfMoves (gameState st)"
  by (cases "fst (executeAction rnd st i args)";
      simp add: executeAction_fields executeAction_False)+

lemma selectSquare_cases:
  "selectSquare move moves st square = snd (makeMove move st (the (selectedSquare (gameState st))) square)
   \<or> (phase (gameState (selectSquare move moves st square)) = phase (gameState st) \<and>
      halfMoves (gameState (selectSquare move moves st square)) = halfMoves (gameState st))"
  unfolding selectSquare_def Let_def
  by (simp split: option.splits)

lemma step_phaseInv: "phaseInv st \<Longrightarrow> phaseInv (step move moves rnd x st)"
proof (cases x)
  case (Move f t)
  assume "phaseInv st"
  then show ?thesis by (simp add: Move makeMove_phaseInv)
next
  case (Action i args)
  assume "phaseInv st"
  then show ?thesis by (simp add: Action phaseInv_def executeAction_phase_halfMoves)
next
  case (Select sq)
  assume i: "phaseInv st"
  from selectSquare_cases[of move moves st sq] show ?thesis
  proof
    assume "selectSquare move moves st sq
        = snd (makeMove move st (the (selectedSquare (gameState st))) sq)"
    with i show ?thesis by (simp add: Select makeMove_phaseInv)
  next
    assume "phase (gameState (selectSquare move moves st sq)) = phase (gameState st) \<and>
      halfMoves (gameState (selectSquare move moves st sq)) = halfMoves (gameState st)"
    with i show ?thesis by (simp add: Select phaseInv_def)
  qed
next
  case Reset
  show ?thesis by (simp add: Reset phaseInv_def resetGame_def initialGameState_def)
qed

lemma step_halfMoves:
  "\<not> isReset x \<Longrightarrow> halfMoves (gameState st) \<le> halfMoves (gameState (step move moves rnd x st))"
proof (cases x)
  case (Select sq)
  from selectSquare_cases[of move moves st sq] show ?thesis
    by (auto simp: Select makeMove_halfMoves)
qed (simp_all add: makeMove_halfMoves executeAction_phase_halfMoves)

lemma run_phaseInv: "phaseInv st \<Longrightarrow> phaseInv (run move moves rnd inputs st)"
  unfolding run_def by (induction inputs arbitrary: st) (simp_all add: step_phaseInv)

lemma run_halfMoves:
  "\<not> list_ex isReset inputs
     \<Longrightarrow> halfMoves (gameState st) \<le> halfMoves (gameState (run move moves rnd inputs st))"
  unfolding run_def
proof (induction inputs arbitrary: st)
  case Nil
  then show ?case by simp
next
  case (Cons x xs)
  then have "\<not> isReset x" "\<not> list_ex isReset xs" by simp_all
  from step_halfMoves[OF this(1), of st move moves rnd] Cons.IH[OF this(2), of "step move moves rnd x st"]
  show ?case by simp
qed

lemma useChessGame_phaseInv: "phaseInv useChessGame"
  by (simp add: phaseInv_def useChessGame_def initialGameState_def)

lemma makeMove_accept:
  assumes "validateFen (chess (gameState st))" "move (chess (gameState st)) from to = Some c"
  shows "makeMove move st from to =
     (True, st\<lparr>gameState := (gameState st)\<lparr>chess := c, currentPlayer := turn c,
            phase := (if halfMoves (gameState st) + 1 \<ge> 20 then Creative else Standard),
            halfMoves := halfMoves (gameState st) + 1, selectedSquare := None, validMoves := [],
            lastMove := Some (from, to), gameOver := fst (checkWinCondition c),
            winner := snd (checkWinCondition c)\<rparr>\<rparr>)"
  using assms unfolding makeMove_def CREATIVE_PHASE_THRESHOLD_def fenCopy_eq
  by (simp add: Let_def split: prod.splits)

lemma get_eval:
  "get \<lparr>board = b, turn = t\<rparr> (Some sq) = (if onBoard sq then b sq else None)"
  by (simp add: get_def)

lemma shuffle_relocate:
  "relocate newChess (6, 1) (5, 3)
     = Some \<lparr>board = startBoard((6, 1) := None, (5, 3) \<mapsto> \<lparr>type = N, color = W\<rparr>), turn = B\<rparr>"
  "relocate \<lparr>board = startBoard((6, 1) := None, (5, 3) \<mapsto> \<lparr>type = N, color = W\<rparr>), turn = B\<rparr> (6, 8) (5, 6)
     = Some \<lparr>board = startBoard((6, 1) := None, (5, 3) \<mapsto> \<lparr>type = N, color = W\<rparr>, (6, 8) := None, (5, 6) \<mapsto> \<lparr>type = N, color = B\<rparr>),
             turn = W\<rparr>"
  "relocate \<lparr>board = startBoard((6, 1) := None, (5, 3) \<mapsto> \<lparr>type = N, color = W\<rparr>, (6, 8) := None, (5, 6) \<mapsto> \<lparr>type = N, color = B\<rparr>),
             turn = W\<rparr> (5, 3) (6, 1)
     = Some \<lparr>board = startBoard((6, 8) := None, (5, 6) \<mapsto> \<lparr>type = N, color = B\<rparr>), turn = B\<rparr>"
  "relocate \<lparr>board = startBoard((6, 8) := None, (5, 6) \<mapsto> \<lparr>type = N, color = B\<rparr>), turn = B\<rparr> (5, 6) (6, 8)
     = Some newChess"
  unfolding relocate_def newChess_def get_eval
  by (auto simp: onBoard_def startBoard_def backRank_def put_def remove_def
      getOpponentColor_def fun_eq_iff)

lemma shuffle_checkWin:
  "checkWinCondition \<lparr>board = startBoard((6, 1) := None, (5, 3) \<mapsto> \<lparr>type = N, color = W\<rparr>), turn = B\<rparr> = (False, None)"
  "checkWinCondition \<lparr>board = startBoard((6, 1) := None, (5, 3) \<mapsto> \<lparr>type = N, color = W\<rparr>, (6, 8) := None, (5, 6) \<mapsto> \<lparr>type = N, color = B\<rparr>),
             turn = W\<rparr> = (False, None)"
  "checkWinCondition \<lparr>board = startBoard((6, 8) := None, (5, 6) \<mapsto> \<lparr>type = N, color = B\<rparr>), turn = B\<rparr> = (False, None)"
  unfolding checkWinCondition_def countPieces_def allSquares_eval
  by (simp_all add: get_def onBoard_def startBoard_def)

lemma shuffle_validateFen:
  "validateFen \<lparr>board = startBoard((6, 1) := None, (5, 3) \<mapsto> \<lparr>type = N, color = W\<rparr>), turn = B\<rparr>"
  "validateFen \<lparr>board = startBoard((6, 1) := None, (5, 3) \<mapsto> \<lparr>type = N, color = W\<rparr>, (6, 8) := None, (5, 6) \<mapsto> \<lparr>type = N, color = B\<rparr>),
             turn = W\<rparr>"
  "validateFen \<lparr>board = startBoard((6, 8) := None, (5, 6) \<mapsto> \<lparr>type = N, color = B\<rparr>), turn = B\<rparr>"
  unfolding validateFen_def kingCount_def pawnOnEdge_def getPiecesOfColor_def allSquares_eval
  by (simp_all add: get_def onBoard_def startBoard_def backRank_def)

lemma relocate_step:
  assumes "chess (gameState s) = c" "validateFen c" "relocate c f t = Some c'"
    "checkWinCondition c' = (False, None)"
  shows "snd (makeMove relocate s f t) =
     s\<lparr>gameState := (gameState s)\<lparr>chess := c', currentPlayer := turn c',
            phase := (if halfMoves (gameState s) + 1 \<ge> 20 then Creative else Standard),
            halfMoves := halfMoves (gameState s) + 1, selectedSquare := None, validMoves := [],
            lastMove := Some (f, t), gameOver := False, winner := None\<rparr>\<rparr>"
  using assms by (simp add: makeMove_accept[where move = relocate and st = s and c = c'])

lemma shuffleCycle_run:
  assumes "chess (gameState st) = newChess"
  shows "run relocate moves rnd shuffleCycle st =
     st\<lparr>gameState := (gameState st)\<lparr>chess := newChess, currentPlayer := W,
            phase := (if halfMoves (gameState st) + 4 \<ge> 20 then Creative else Standard),
            halfMoves := halfMoves (gameState st) + 4, selectedSquare := None, validMoves := [],
            lastMove := Some ((5, 6), (6, 8)), gameOver := False, winner := None\<rparr>\<rparr>"
proof -
  let ?c1 = "\<lparr>board = startBoard((6, 1) := None, (5, 3) \<mapsto> \<lparr>type = N, color = W\<rparr>), turn = B\<rparr>"
  let ?c2 = "\<lparr>board = startBoard((6, 1) := None, (5, 3) \<mapsto> \<lparr>type = N, color = W\<rparr>, (6, 8) := None, (5, 6) \<mapsto> \<lparr>type = N, color = B\<rparr>),
             turn = W\<rparr>"
  let ?c3 = "\<lparr>board = startBoard((6, 8) := None, (5, 6) \<mapsto> \<lparr>type = N, color = B\<rparr>), turn = B\<rparr>"
  define s1 where "s1 = snd (makeMove relocate st (6, 1) (5, 3))"
  define s2 where "s2 = snd (makeMove relocate s1 (6, 8) (5, 6))"
  define s3 where "s3 = snd (makeMove relocate s2 (5, 3) (6, 1))"
  define s4 where "s4 = snd (makeMove relocate s3 (5, 6) (6, 8))"
  note 1 = relocate_step[OF assms validateFen_newChess shuffle_relocate(1) shuffle_checkWin(1),
      folded s1_def]
  have c1: "chess (gameState s1) = ?c1" unfolding 1 by simp
  note 2 = relocate_step[OF c1 shuffle_validateFen(1) shuffle_relocate(2) shuffle_checkWin(2),
      folded s2_def]
  have c2: "chess (gameState s2) = ?c2" unfolding 2 by simp
  note 3 = relocate_step[OF c2 shuffle_validateFen(2) shuffle_relocate(3) shuffle_checkWin(3),
      folded s3_def]
  have c3: "chess (gameState s3) = ?c3" unfolding 3 by simp
  note 4 = relocate_step[OF c3 shuffle_validateFen(3) shuffle_relocate(4)
      checkWinCondition_newChess, folded s4_def]
  have h: "halfMoves (gameState s1) = halfMoves (gameState st) + 1"
    "halfMoves (gameState s2) = halfMoves (gameState s1) + 1"
    "halfMoves (gameState s3) = halfMoves (gameState s2) + 1"
    unfolding 1 2 3 by simp_all
  have "s4 = st\<lparr>gameState := (gameState st)\<lparr>chess := newChess, currentPlayer := W,
            phase := (if halfMoves (gameState st) + 4 \<ge> 20 then Creative else Standard),
            halfMoves := halfMoves (gameState st) + 4, selectedSquare := None, validMoves := [],
            lastMove := Some ((5, 6), (6, 8)), gameOver := False, winner := None\<rparr>\<rparr>"
    unfolding 4 by (simp add: h) (simp add: 1 2 3 newChess_def)
  moreover have "run relocate moves rnd shuffleCycle st = s4"
    by (simp add: run_def shuffleCycle_def s1_def s2_def s3_def s4_def)
  ultimately show ?thesis by simp
qed

lemma run_append: "run move moves rnd (xs @ ys) st = run move moves rnd ys (run move moves rnd xs st)"
  by (simp add: run_def)

lemma knightShuffle_reaches: "run relocate moves rnd knightShuffle useChessGame = creativeStart"
proof -
  have k: "knightShuffle = shuffleCycle @ shuffleCycle @ shuffleCycle @ shuffleCycle @ shuffleCycle"
    by (simp add: knightShuffle_def numeral_eq_Suc)
  have c: "chess (gameState useChessGame) = newChess"
    by (simp add: useChessGame_def initialGameState_def)
  show ?thesis
    unfolding k run_append
    by (simp add: shuffleCycle_run c)
       (simp add: creativeStart_def useChessGame_def initialGameState_def)
qed

text \<open>C2: in every state reached from the start of the game by any calls of the hook, the
  phase is creative if and only if \<open>halfMoves\<close> is at least 20; over any further moves,
  selections and actions (no reset) \<open>halfMoves\<close> does not decrease and a creative phase stays
  creative.\<close>

theorem phase_creative_iff_threshold:
  "(phase (gameState (run move moves rnd inputs useChessGame)) = Creative
      \<longleftrightarrow> 20 \<le> halfMoves (gameState (run move moves rnd inputs useChessGame))) \<and>
   (\<not> list_ex isReset later \<longrightarrow>
      halfMoves (gameState (run move moves rnd inputs useChessGame))
        \<le> halfMoves (gameState (run move moves rnd later (run move moves rnd inputs useChessGame)))) \<and>
   (\<not> list_ex isReset later \<longrightarrow>
      phase (gameState (run move moves rnd inputs useChessGame)) = Creative \<longrightarrow>
      phase (gameState (run move moves rnd later (run move moves rnd inputs useChessGame))) = Creative)"
proof -
  let ?st = "run move moves rnd inputs useChessGame"
  have i: "phaseInv ?st" by (rule run_phaseInv[OF useChessGame_phaseInv])
  have j: "phaseInv (run move moves rnd later ?st)" by (rule run_phaseInv[OF i])
  show ?thesis
    using i j run_halfMoves[of later ?st move moves rnd]
    unfolding phaseInv_def by auto
qed

text \<open>The theorem of C2 on the knight shuffle, followed by EMP Blast and the move e2-e3.\<close>

theorem phase_creative_iff_threshold_witness:
  "phase (gameState (run relocate noMoves lowRolls knightShuffle useChessGame)) = Creative \<and>
   halfMoves (gameState (run relocate noMoves lowRolls knightShuffle useChessGame)) = 20 \<and>
   phase (gameState (run relocate noMoves lowRolls [Action ''empBlast'' [], Move (4, 2) (4, 3)]
            (run relocate noMoves lowRolls knightShuffle useChessGame))) = Creative"
proof -
  have n: "\<not> list_ex isReset [Action ''empBlast'' [], Move (4, 2) (4, 3)]" by simp
  have r: "run relocate noMoves lowRolls knightShuffle useChessGame = creativeStart"
    by (rule knightShuffle_reaches)
  show ?thesis
    using phase_creative_iff_threshold
        [of relocate noMoves lowRolls knightShuffle "[Action ''empBlast'' [], Move (4, 2) (4, 3)]"] n
    by (simp add: r creativeStart_fields)
qed

section \<open>Shield and Rubber-Band Shot\<close>

lemma getActionById_shield:
  "getActionById ''shield'' = Some (targeted ''shield'' ''Shield'' shield_validateTarget shield_execute)"
  unfolding getActionById_def creativeActions_def
  by (simp add: targeted_def untargeted_def copying_def nuke_action_def rocketBarrage_action_def)

lemma getActionById_rubberBand:
  "getActionById ''rubberBand'' =
     Some (targeted ''rubberBand'' ''Rubber-Band Shot'' rubberBand_validateTarget rubberBand_execute)"
  unfolding getActionById_def creativeActions_def
  by (simp add: targeted_def untargeted_def copying_def nuke_action_def rocketBarrage_action_def)

lemma getActionById_lootDrop:
  "getActionById ''lootDrop'' = Some (untargeted ''lootDrop'' ''Loot Drop'' lootDrop_execute)"
  unfolding getActionById_def creativeActions_def
  by (simp add: targeted_def untargeted_def copying_def nuke_action_def rocketBarrage_action_def)

lemma getActionById_rocketBarrage:
  "getActionById ''rocketBarrage'' = Some rocketBarrage_action"
  unfolding getActionById_def creativeActions_def
  by (simp add: targeted_def untargeted_def copying_def nuke_action_def rocketBarrage_action_def)

lemma get_newChess:
  "get newChess (Some (0, 2)) = Some \<lparr>type = P, color = W\<rparr>"
  "get newChess (Some (4, 2)) = Some \<lparr>type = P, color = W\<rparr>"
  "get newChess (Some (0, 7)) = Some \<lparr>type = P, color = B\<rparr>"
  "get newChess (Some (3, 7)) = Some \<lparr>type = P, color = B\<rparr>"
  "get newChess (Some (2, 7)) = Some \<lparr>type = P, color = B\<rparr>"
  "get newChess (Some (1, 1)) = Some \<lparr>type = N, color = W\<rparr>"
  "get newChess (Some (0, 1)) = Some \<lparr>type = R, color = W\<rparr>"
  by (simp_all add: get_def onBoard_def newChess_def startBoard_def backRank_def)

lemma executeAction_no_effect:
  assumes "actionRegistry st i \<noteq> Some True" "phase (gameState st) = Creative"
    "getActionById i = Some a" "targetAccepted a (gameState st) args = Some True"
    "execute a rnd (randomCalls st) (gameState st) args = Some (gameState st, randomCalls st)"
    "checkWinCondition (chess (gameState st)) = (gameOver (gameState st), winner (gameState st))"
  shows "executeAction rnd st i args =
     (True, st\<lparr>gameState := (gameState st)
                   \<lparr>currentPlayer := getOpponentColor (currentPlayer (gameState st))\<rparr>,
               actionRegistry := (actionRegistry st)(i \<mapsto> True)\<rparr>)"
  unfolding executeAction_accept[OF assms(1-5)] by (simp add: assms(6))

lemma creativeStart_over:
  "gameOver (gameState creativeStart) = False" "winner (gameState creativeStart) = None"
  by (simp_all add: creativeStart_def initialGameState_def)

lemma shield_a2: "executeAction rnd creativeStart ''shield'' [(0, 2)] = (True, afterShield)"
  unfolding afterShield_def
  by (subst executeAction_no_effect[OF _ _ getActionById_shield])
     (simp_all add: creativeStart_fields initialRegistry_unused targetAccepted_targeted
        execute_targeted shield_validateTarget_def shield_execute_def arg_def get_newChess
        creativeStart_over checkWinCondition_newChess getOpponentColor_def)

lemma lootDrop_creativeStart: "executeAction rnd creativeStart ''lootDrop'' [] = (True, afterLootDrop)"
  unfolding afterLootDrop_def
  by (subst executeAction_no_effect[OF _ _ getActionById_lootDrop])
     (simp_all add: creativeStart_fields initialRegistry_unused targetAccepted_untargeted
        execute_untargeted lootDrop_execute_def creativeStart_over checkWinCondition_newChess getOpponentColor_def)

lemma afterLootDrop_fields:
  "phase (gameState afterLootDrop) = Creative" "chess (gameState afterLootDrop) = newChess"
  "currentPlayer (gameState afterLootDrop) = B"
  "actionRegistry afterLootDrop ''rubberBand'' \<noteq> Some True"
  "gameOver (gameState afterLootDrop) = False" "winner (gameState afterLootDrop) = None"
  by (simp_all add: afterLootDrop_def creativeStart_fields creativeStart_over
        initialRegistry_unused)

lemma rubberBand_e2:
  "executeAction rnd afterLootDrop ''rubberBand'' [(4, 2)] = (True, afterRubberBand)"
  unfolding afterRubberBand_def
  by (subst executeAction_no_effect[OF _ _ getActionById_rubberBand])
     (simp_all add: afterLootDrop_fields targetAccepted_targeted
        execute_targeted rubberBand_validateTarget_def rubberBand_execute_def arg_def get_newChess
        checkWinCondition_newChess getOpponentColor_def)

text \<open>C6 at a worked game. White plays Shield on its pawn a2: the call succeeds and the new
  state is \<open>afterShield\<close>, which records no shield. Black then plays Snip on a2: the call
  succeeds and the pawn is gone, where the claim has the pawn survive this first action.\<close>

theorem shield_does_not_protect:
  "executeAction lowRolls creativeStart ''shield'' [(0, 2)] = (True, afterShield) \<and>
   get (chess (gameState afterShield)) (Some (0, 2)) = Some \<lparr>type = P, color = W\<rparr> \<and>
   fst (executeAction lowRolls afterShield ''snip'' [(0, 2)]) \<and>
   get (chess (gameState (snd (executeAction lowRolls afterShield ''snip'' [(0, 2)])))) (Some (0, 2))
     = None"
proof -
  let ?gs = "(gameState afterShield)\<lparr>chess := remove newChess (Some (0, 2))\<rparr>"
  have f: "phase (gameState afterShield) = Creative" "chess (gameState afterShield) = newChess"
    "currentPlayer (gameState afterShield) = B" "actionRegistry afterShield ''snip'' \<noteq> Some True"
    by (simp_all add: afterShield_def creativeStart_fields initialRegistry_unused)
  have t: "targetAccepted (copying ''snip'' ''Snip'' snip_validateTarget snip_execute)
      (gameState afterShield) [(0, 2)] = Some True"
    by (simp add: targetAccepted_copying snip_validateTarget_def arg_def f get_newChess)
  have e: "execute (copying ''snip'' ''Snip'' snip_validateTarget snip_execute) lowRolls
      (randomCalls afterShield) (gameState afterShield) [(0, 2)]
      = Some (?gs, randomCalls afterShield)"
    by (simp add: execute_copying snip_execute_def fenCopy_eq f validateFen_newChess arg_def)
  note s = executeAction_accept[OF f(4) f(1) getActionById_snip t e]
  show ?thesis
    unfolding s
    by (simp add: shield_a2 f get_newChess)
       (simp add: get_def remove_def onBoard_def)
qed

text \<open>C7 at a worked game. White plays Loot Drop, Black plays Rubber-Band Shot on the white pawn
  e2: both calls succeed and the new state is \<open>afterRubberBand\<close>, which records no freeze.
  It is White's turn, on the board and in the engine, and the move e2-e3 of the targeted pawn
  succeeds, where the claim has it fail for White's next turn.\<close>

theorem rubberBand_does_not_freeze:
  "executeAction lowRolls creativeStart ''lootDrop'' [] = (True, afterLootDrop) \<and>
   executeAction lowRolls afterLootDrop ''rubberBand'' [(4, 2)] = (True, afterRubberBand) \<and>
   currentPlayer (gameState afterRubberBand) = W \<and>
   get (chess (gameState afterRubberBand)) (Some (4, 2)) = Some \<lparr>type = P, color = W\<rparr> \<and>
   fst (makeMove relocate afterRubberBand (4, 2) (4, 3))"
proof -
  have c: "chess (gameState afterRubberBand) = newChess"
    by (simp add: afterRubberBand_def afterLootDrop_fields)
  have m: "fst (makeMove relocate afterRubberBand (4, 2) (4, 3))"
    using makeMove_accept[of afterRubberBand relocate "(4, 2)" "(4, 3)"]
    by (simp add: c relocate_e2e3 validateFen_newChess)
  show ?thesis
    using m by (simp add: lootDrop_creativeStart rubberBand_e2 c get_newChess)
      (simp add: afterRubberBand_def)
qed

section \<open>Sniper Shot\<close>

lemma set_map_filter_scan:
  "(p, sq) \<in> set (List.map_filter
       (\<lambda>sq. case g sq of
                None \<Rightarrow> None
              | Some p \<Rightarrow> if color p = c then Some (p, sq) else None) xs)
   \<longleftrightarrow> sq \<in> set xs \<and> g sq = Some p \<and> color p = c"
  by (induction xs) (auto split: option.splits)

lemma set_getPiecesOfColor:
  "(p, sq) \<in> set (getPiecesOfColor ch c) \<longleftrightarrow> get ch (Some sq) = Some p \<and> color p = c"
proof -
  have g: "get ch (Some sq) = Some p \<Longrightarrow> onBoard sq"
    by (simp add: get_def split: if_splits)
  show ?thesis
    unfolding getPiecesOfColor_def set_map_filter_scan set_allSquares using g by blast
qed

lemma ex_getPiecesOfColor:
  "list_ex (\<lambda>x. F (snd x)) (getPiecesOfColor ch c)
     \<longleftrightarrow> (\<exists>sq p. get ch (Some sq) = Some p \<and> color p = c \<and> F sq)"
proof
  assume "list_ex (\<lambda>x. F (snd x)) (getPiecesOfColor ch c)"
  then obtain x where x: "x \<in> set (getPiecesOfColor ch c)" "F (snd x)"
    unfolding list_ex_iff by blast
  obtain p sq where "x = (p, sq)" by (cases x)
  with x set_getPiecesOfColor[of p sq ch c]
  have "get ch (Some sq) = Some p \<and> color p = c \<and> F sq" by simp
  then show "\<exists>sq p. get ch (Some sq) = Some p \<and> color p = c \<and> F sq" by blast
next
  assume "\<exists>sq p. get ch (Some sq) = Some p \<and> color p = c \<and> F sq"
  then obtain sq p where "get ch (Some sq) = Some p" "color p = c" "F sq" by blast
  then have "(p, sq) \<in> set (getPiecesOfColor ch c)" "F (snd (p, sq))"
    by (simp_all add: set_getPiecesOfColor)
  then show "list_ex (\<lambda>x. F (snd x)) (getPiecesOfColor ch c)"
    unfolding list_ex_iff by blast
qed

text \<open>C8: Sniper Shot's \<open>validateTarget\<close> accepts the target square \<open>t\<close> if and only if
  \<open>t\<close> holds a piece of the opponent and some piece of the acting player stands at Manhattan
  distance at least 3 from \<open>t\<close>; so it rejects a valid enemy target when every own piece is
  within distance 2.\<close>

theorem sniperShot_validateTarget_iff:
  "sniperShot_validateTarget gs (t # rest) \<longleftrightarrow>
     (\<exists>piece. get (chess gs) (Some t) = Some piece \<and> color piece \<noteq> currentPlayer gs) \<and>
     (\<exists>sq p. get (chess gs) (Some sq) = Some p \<and> color p = currentPlayer gs \<and>
        3 \<le> \<bar>int (fst sq) - int (fst t)\<bar> + \<bar>int (snd sq) - int (snd t)\<bar>)"
proof -
  have d: "\<And>sq. getSquareDistance sq t = \<bar>int (fst sq) - int (fst t)\<bar> + \<bar>int (snd sq) - int (snd t)\<bar>"
    by (simp add: getSquareDistance_def Let_def)
  have e: "list_ex (\<lambda>p. getSquareDistance (snd p) t \<ge> 3) (getPiecesOfColor (chess gs) (currentPlayer gs))
     \<longleftrightarrow> (\<exists>sq p. get (chess gs) (Some sq) = Some p \<and> color p = currentPlayer gs \<and>
        3 \<le> \<bar>int (fst sq) - int (fst t)\<bar> + \<bar>int (snd sq) - int (snd t)\<bar>)"
    unfolding d by (rule ex_getPiecesOfColor)
  show ?thesis
    unfolding sniperShot_validateTarget_def
    by (cases "get (chess gs) (Some t)") (simp_all add: arg_def Let_def e)
qed

lemma smallGame_fields:
  "chess smallGame = smallPosition" "currentPlayer smallGame = W"
  by (simp_all add: smallGame_def initialGameState_def)

lemma get_smallPosition:
  "get smallPosition (Some sq) =
     (if sq = (1, 1) then Some \<lparr>type = R, color = B\<rparr>
      else if sq = (1, 3) then Some \<lparr>type = N, color = W\<rparr>
      else if sq = (0, 1) then Some \<lparr>type = R, color = W\<rparr>
      else None)"
  by (simp add: get_def smallPosition_def onBoard_def)

text \<open>The theorem of C8 twice: the black pawn a7 of the starting position is accepted, and
  the black rook b1 of the small position, with the white pieces at distance 1 and 2, is
  rejected.\<close>

theorem sniperShot_validateTarget_iff_witness:
  "sniperShot_validateTarget (gameState creativeStart) [(0, 7)] \<and>
   \<not> sniperShot_validateTarget smallGame [(1, 1)]"
proof -
  have far: "get newChess (Some (0, 2)) = Some \<lparr>type = P, color = W\<rparr> \<and>
      color \<lparr>type = P, color = W\<rparr> = W \<and>
      3 \<le> \<bar>int (fst ((0, 2)::Square)) - int (fst ((0, 7)::Square))\<bar>
            + \<bar>int (snd ((0, 2)::Square)) - int (snd ((0, 7)::Square))\<bar>"
    by (simp add: get_newChess)
  have near: "\<not> (\<exists>sq p. get smallPosition (Some sq) = Some p \<and> color p = W \<and>
        3 \<le> \<bar>int (fst sq) - int (fst ((1, 1)::Square))\<bar>
              + \<bar>int (snd sq) - int (snd ((1, 1)::Square))\<bar>)"
  proof
    assume "\<exists>sq p. get smallPosition (Some sq) = Some p \<and> color p = W \<and>
        3 \<le> \<bar>int (fst sq) - int (fst ((1, 1)::Square))\<bar>
              + \<bar>int (snd sq) - int (snd ((1, 1)::Square))\<bar>"
    then obtain sq p where g: "get smallPosition (Some sq) = Some p" and c: "color p = W"
      and d: "3 \<le> \<bar>int (fst sq) - int (fst ((1, 1)::Square))\<bar>
              + \<bar>int (snd sq) - int (snd ((1, 1)::Square))\<bar>" by blast
    from g c have "sq = (1, 3) \<or> sq = (0, 1)"
      by (auto simp: get_smallPosition split: if_splits)
    with d show False by auto
  qed
  have pos: "sniperShot_validateTarget (gameState creativeStart) [(0, 7)]"
    unfolding sniperShot_validateTarget_iff[of "gameState creativeStart" "(0, 7)" "[]"]
      creativeStart_fields
  proof
    show "\<exists>piece. get newChess (Some (0, 7)) = Some piece \<and> color piece \<noteq> W"
      by (simp add: get_newChess)
    show "\<exists>sq p. get newChess (Some sq) = Some p \<and> color p = W \<and>
        3 \<le> \<bar>int (fst sq) - int (fst ((0, 7)::Square))\<bar>
              + \<bar>int (snd sq) - int (snd ((0, 7)::Square))\<bar>"
      using far by blast
  qed
  show ?thesis
    using pos near sniperShot_validateTarget_iff[of smallGame "(1, 1)" "[]"]
    by (simp add: smallGame_fields)
qed

section \<open>Robot Proxy\<close>

lemma findType_map_filter:
  "map_option snd (findType t (List.map_filter
       (\<lambda>sq. case get c (Some sq) of
                None \<Rightarrow> None
              | Some p \<Rightarrow> if color p = col then Some (p, sq) else None) xs))
   = find (\<lambda>sq. case get c (Some sq) of
                  None \<Rightarrow> False
                | Some p \<Rightarrow> color p = col \<and> type p = t) xs"
  unfolding findType_def
  by (induction xs) (auto simp: map_filter_simps split: option.splits)

lemma findType_getPiecesOfColor:
  "map_option snd (findType t (getPiecesOfColor c col)) = firstInScan c col t"
  unfolding getPiecesOfColor_def firstInScan_def by (rule findType_map_filter)

lemma findType_cases:
  "(case findType t (getPiecesOfColor c col) of Some x \<Rightarrow> f (snd x) | None \<Rightarrow> g)
   = (case firstInScan c col t of Some sq \<Rightarrow> f sq | None \<Rightarrow> g)"
  unfolding findType_getPiecesOfColor[symmetric]
  by (cases "findType t (getPiecesOfColor c col)") simp_all

lemma firstInScan_None:
  "firstInScan c col t = None
     \<longleftrightarrow> (\<forall>sq p. get c (Some sq) = Some p \<longrightarrow> color p = col \<longrightarrow> type p \<noteq> t)"
  unfolding firstInScan_def find_None_iff set_allSquares
  by (auto simp: get_def split: option.splits if_splits)


text \<open>On a position that the copy accepts, \<open>execute\<close> does what the description says.\<close>

lemma robotProxy_execute_refines:
  assumes v: "validateFen (chess gs)" and p: "get (chess gs) (Some s) = Some pilot"
  shows "robotProxy_execute gs (s # rest) = Some (gs\<lparr>chess := robotProxy_spec (chess gs) pilot\<rparr>)"
proof -
  let ?opp = "getOpponentColor (color pilot)"
  have f: "fallback [P, Q, K] (getPiecesOfColor (chess gs) ?opp) (chess gs) =
      (case firstInScan (chess gs) ?opp P of
            Some sq \<Rightarrow> remove (chess gs) (Some sq)
          | None \<Rightarrow>
             (case firstInScan (chess gs) ?opp Q of
                Some sq \<Rightarrow> remove (chess gs) (Some sq)
              | None \<Rightarrow>
                 (case firstInScan (chess gs) ?opp K of
                    Some sq \<Rightarrow> remove (chess gs) (Some sq)
                  | None \<Rightarrow> chess gs)))"
    by (simp add: findType_cases[where f="\<lambda>sq. remove (chess gs) (Some sq)"]
          cong: option.case_cong)
  show ?thesis
  proof (cases "findType (type pilot) (getPiecesOfColor (chess gs) ?opp)")
    case None
    then have "firstInScan (chess gs) ?opp (type pilot) = None"
      using findType_getPiecesOfColor[of "type pilot" "chess gs" ?opp] by simp
    with None show ?thesis
      unfolding robotProxy_execute_def robotProxy_spec_def
      by (simp add: arg_def fenCopy_eq v p Let_def f del: fallback.simps)
  next
    case (Some x)
    then have "firstInScan (chess gs) ?opp (type pilot) = Some (snd x)"
      using findType_getPiecesOfColor[of "type pilot" "chess gs" ?opp] by simp
    with Some show ?thesis
      unfolding robotProxy_execute_def robotProxy_spec_def
      by (simp add: arg_def fenCopy_eq v p Let_def)
  qed
qed

lemma robotProxy_execute_throws:
  "\<not> validateFen (chess gs) \<Longrightarrow> robotProxy_execute gs args = None"
  by (simp add: robotProxy_execute_def fenCopy_eq)

lemma getActionById_sniperShot:
  "getActionById ''sniperShot'' =
     Some (copying ''sniperShot'' ''Sniper Shot'' sniperShot_validateTarget sniperShot_execute)"
  unfolding getActionById_def creativeActions_def
  by (simp add: targeted_def untargeted_def copying_def nuke_action_def rocketBarrage_action_def)

lemma getActionById_robotProxy:
  "getActionById ''robotProxy'' =
     Some (copying ''robotProxy'' ''Robot Proxy'' robotProxy_validateTarget robotProxy_execute)"
  unfolding getActionById_def creativeActions_def
  by (simp add: targeted_def untargeted_def copying_def nuke_action_def rocketBarrage_action_def)

lemma get_newChess_e8: "get newChess (Some (4, 8)) = Some \<lparr>type = K, color = B\<rparr>"
  by (simp add: get_def onBoard_def newChess_def startBoard_def backRank_def)

lemma checkWinCondition_without_e8:
  "checkWinCondition (remove newChess (Some (4, 8))) = (False, None)"
  unfolding checkWinCondition_def countPieces_def allSquares_eval
  by (simp add: get_def remove_def onBoard_def newChess_def startBoard_def)

lemma validateFen_without_e8: "\<not> validateFen (remove newChess (Some (4, 8)))"
  unfolding validateFen_def kingCount_def pawnOnEdge_def getPiecesOfColor_def allSquares_eval
  by (simp add: get_def remove_def onBoard_def newChess_def startBoard_def backRank_def)

lemma sniperShot_e8:
  "executeAction rnd creativeStart ''sniperShot'' [(4, 8)] = (True, afterSniperShot)"
proof -
  let ?gs = "(gameState creativeStart)\<lparr>chess := remove newChess (Some (4, 8))\<rparr>"
  have r: "actionRegistry creativeStart ''sniperShot'' \<noteq> Some True"
    by (simp add: creativeStart_fields initialRegistry_unused)
  have far: "\<exists>sq p. get newChess (Some sq) = Some p \<and> color p = W \<and>
      3 \<le> getSquareDistance sq (4, 8)"
    by (intro exI[of _ "(0, 2)"] exI[of _ "\<lparr>type = P, color = W\<rparr>"])
       (simp add: get_newChess getSquareDistance_def)
  have t: "targetAccepted
      (copying ''sniperShot'' ''Sniper Shot'' sniperShot_validateTarget sniperShot_execute)
      (gameState creativeStart) [(4, 8)] = Some True"
    using far ex_getPiecesOfColor[of "\<lambda>sq. 3 \<le> getSquareDistance sq (4, 8)" newChess W]
    by (simp add: targetAccepted_copying sniperShot_validateTarget_def arg_def
        creativeStart_fields get_newChess_e8)
  have e: "execute
      (copying ''sniperShot'' ''Sniper Shot'' sniperShot_validateTarget sniperShot_execute) rnd
      (randomCalls creativeStart) (gameState creativeStart) [(4, 8)]
      = Some (?gs, randomCalls creativeStart)"
    by (simp add: execute_copying sniperShot_execute_def fenCopy_eq creativeStart_fields
        validateFen_newChess arg_def)
  show ?thesis
    unfolding executeAction_accept[OF r creativeStart_fields(1) getActionById_sniperShot t e]
    by (simp add: checkWinCondition_without_e8 creativeStart_fields getOpponentColor_def
          afterSniperShot_def)
       (simp add: creativeStart_def useChessGame_def initialGameState_def)
qed

lemma afterSniperShot_fields:
  "chess (gameState afterSniperShot) = remove newChess (Some (4, 8))"
  "currentPlayer (gameState afterSniperShot) = B"
  "randomCalls afterSniperShot = 0"
  by (simp_all add: afterSniperShot_def creativeStart_fields)

lemma without_e8_pawns:
  "get (remove newChess (Some (4, 8))) (Some (0, 7)) = Some \<lparr>type = P, color = B\<rparr>"
  "get (remove newChess (Some (4, 8))) (Some (0, 2)) = Some \<lparr>type = P, color = W\<rparr>"
  by (simp_all add: get_def remove_def onBoard_def newChess_def startBoard_def)

lemma firstInScan_without_e8: "firstInScan (remove newChess (Some (4, 8))) W P = Some (0, 2)"
  unfolding firstInScan_def allSquares_eval
  by (simp add: get_def remove_def onBoard_def newChess_def startBoard_def backRank_def)

text \<open>C10 at a worked game. White plays Sniper Shot on the black king e8: the call succeeds
  and the new state is \<open>afterSniperShot\<close>. Black then plays Robot Proxy piloted by its pawn
  a7. \<open>validateTarget\<close> accepts the pilot, and the first white pawn in ascending
  rank-then-file order is a2; but \<open>execute\<close> throws at its copy of the position, which has no
  black king. \<open>executeAction\<close> returns false, the state is as before and the pawn a2 still
  stands, where the claim has it removed.\<close>

theorem robotProxy_throws_without_king:
  "executeAction lowRolls creativeStart ''sniperShot'' [(4, 8)] = (True, afterSniperShot) \<and>
   robotProxy_validateTarget (gameState afterSniperShot) [(0, 7)] \<and>
   firstInScan (chess (gameState afterSniperShot)) W P = Some (0, 2) \<and>
   robotProxy_execute (gameState afterSniperShot) [(0, 7)] = None \<and>
   executeAction lowRolls afterSniperShot ''robotProxy'' [(0, 7)] = (False, afterSniperShot) \<and>
   get (chess (gameState afterSniperShot)) (Some (0, 2)) = Some \<lparr>type = P, color = W\<rparr>"
proof -
  have v: "robotProxy_validateTarget (gameState afterSniperShot) [(0, 7)]"
    by (simp add: robotProxy_validateTarget_def arg_def afterSniperShot_fields without_e8_pawns)
  have x: "robotProxy_execute (gameState afterSniperShot) [(0, 7)] = None"
    by (rule robotProxy_execute_throws) (simp add: afterSniperShot_fields validateFen_without_e8)
  have "execute (copying ''robotProxy'' ''Robot Proxy'' robotProxy_validateTarget robotProxy_execute)
      lowRolls (randomCalls afterSniperShot) (gameState afterSniperShot) [(0, 7)] = None"
    by (simp add: execute_copying x)
  from executeAction_reject(4)[OF getActionById_robotProxy this]
  have r: "executeAction lowRolls afterSniperShot ''robotProxy'' [(0, 7)] = (False, afterSniperShot)" .
  show ?thesis
    using v x r
    by (simp add: sniperShot_e8 afterSniperShot_fields firstInScan_without_e8 without_e8_pawns)
qed

section \<open>Rocket Barrage and the generator\<close>

lemma barrage_calls: "snd (barrage rnd ts c n) = n + length ts"
  by (induction ts arbitrary: c n) simp_all

lemma barrage_fold: "fst (barrage rnd ts c n) = barrage_spec rnd n ts c"
  unfolding barrage_spec_def by (induction ts arbitrary: c n) simp_all

lemma barrage_board:
  "board (fst (barrage rnd ts c n)) sq =
     (if \<exists>i < length ts. ts ! i = sq \<and> onBoard sq \<and> 4 \<le> roll rnd (n + i) then None
      else board c sq)"
proof (induction ts arbitrary: c n)
  case Nil
  then show ?case by simp
next
  case (Cons t ts)
  have split: "(\<exists>i < length (t # ts). (t # ts) ! i = sq \<and> onBoard sq \<and> 4 \<le> roll rnd (n + i))
     \<longleftrightarrow> (t = sq \<and> onBoard sq \<and> 4 \<le> roll rnd n) \<or>
         (\<exists>i < length ts. ts ! i = sq \<and> onBoard sq \<and> 4 \<le> roll rnd (Suc n + i))"
    (is "?L \<longleftrightarrow> ?A \<or> ?B")
  proof
    assume ?L
    then obtain i where i: "i < length (t # ts)" "(t # ts) ! i = sq" "onBoard sq"
      "4 \<le> roll rnd (n + i)" by blast
    show "?A \<or> ?B"
    proof (cases i)
      case 0
      with i show ?thesis by simp
    next
      case (Suc j)
      with i have "j < length ts \<and> ts ! j = sq \<and> onBoard sq \<and> 4 \<le> roll rnd (Suc n + j)" by simp
      then show ?thesis by blast
    qed
  next
    assume "?A \<or> ?B"
    then show ?L
    proof
      assume ?A
      then have "0 < length (t # ts) \<and> (t # ts) ! 0 = sq \<and> onBoard sq \<and> 4 \<le> roll rnd (n + 0)"
        by simp
      then show ?L by blast
    next
      assume ?B
      then obtain j where "j < length ts" "ts ! j = sq" "onBoard sq" "4 \<le> roll rnd (Suc n + j)"
        by blast
      then have "Suc j < length (t # ts) \<and> (t # ts) ! Suc j = sq \<and> onBoard sq
           \<and> 4 \<le> roll rnd (n + Suc j)" by simp
      then show ?L by blast
    qed
  qed
  show ?case
    unfolding split
    by (auto simp: Cons.IH remove_def)
qed

lemma barrage_cong:
  "(\<And>i. i < length ts \<Longrightarrow> rnd (n + i) = rnd' (n + i)) \<Longrightarrow> barrage rnd ts c n = barrage rnd' ts c n"
proof (induction ts arbitrary: c n)
  case Nil
  then show ?case by simp
next
  case (Cons t ts)
  have 0: "rnd n = rnd' n" using Cons.prems[of 0] by simp
  have "\<And>i. i < length ts \<Longrightarrow> rnd (Suc n + i) = rnd' (Suc n + i)"
    using Cons.prems[of "Suc _"] by simp
  from Cons.IH[OF this] show ?case by (simp add: roll_def 0)
qed

lemma roll_range: "1 \<le> roll rnd n \<and> roll rnd n \<le> 6"
  by (simp add: roll_def)


text \<open>C9, as the code has it, on a position that the copy accepts: Rocket Barrage makes exactly
  one draw per target, left to right over the target list, each roll 1 to 6, and (for distinct
  occupied targets) removes the \<open>i\<close>-th target if and only if its roll is at least 4; its
  result is determined by the state, the targets and these draws, so two runs agree whenever
  their draws agree. The draws come from the ambient \<open>Math.random()\<close>; no seed exists in the
  code.\<close>

theorem rocketBarrage_one_draw_per_target:
  assumes v: "validateFen (chess gs)"
  shows "rocketBarrage_execute rnd n gs targets =
     Some (gs\<lparr>chess := barrage_spec rnd n targets (chess gs)\<rparr>, n + length targets) \<and>
   (\<forall>i < length targets. 1 \<le> roll rnd (n + i) \<and> roll rnd (n + i) \<le> 6) \<and>
   (distinct targets \<longrightarrow>
      (\<forall>i < length targets. get (chess gs) (Some (targets ! i)) \<noteq> None \<longrightarrow>
         (get (barrage_spec rnd n targets (chess gs)) (Some (targets ! i)) = None
            \<longleftrightarrow> 4 \<le> roll rnd (n + i)))) \<and>
   ((\<forall>i < length targets. rnd (n + i) = rnd' (n + i)) \<longrightarrow>
      rocketBarrage_execute rnd n gs targets = rocketBarrage_execute rnd' n gs targets)"
proof (intro conjI allI impI)
  have "barrage rnd targets (chess gs) n
      = (fst (barrage rnd targets (chess gs) n), snd (barrage rnd targets (chess gs) n))" by simp
  then show "rocketBarrage_execute rnd n gs targets =
     Some (gs\<lparr>chess := barrage_spec rnd n targets (chess gs)\<rparr>, n + length targets)"
    unfolding rocketBarrage_execute_def fenCopy_eq barrage_calls barrage_fold
    by (simp add: v)
next
  fix i assume "i < length targets"
  show "1 \<le> roll rnd (n + i)" "roll rnd (n + i) \<le> 6" using roll_range by simp_all
next
  fix i
  assume d: "distinct targets" and i: "i < length targets"
    and p: "get (chess gs) (Some (targets ! i)) \<noteq> None"
  have ob: "onBoard (targets ! i)" using p by (simp add: get_def split: if_splits)
  have u: "(\<exists>j < length targets. targets ! j = targets ! i \<and> onBoard (targets ! i)
              \<and> 4 \<le> roll rnd (n + j)) \<longleftrightarrow> 4 \<le> roll rnd (n + i)"
    using d i ob by (auto simp: nth_eq_iff_index_eq)
  show "get (barrage_spec rnd n targets (chess gs)) (Some (targets ! i)) = None
            \<longleftrightarrow> 4 \<le> roll rnd (n + i)"
    using p ob u unfolding barrage_fold[symmetric] by (auto simp: get_def barrage_board)
next
  assume "\<forall>i < length targets. rnd (n + i) = rnd' (n + i)"
  then have "barrage rnd targets (chess gs) n = barrage rnd' targets (chess gs) n"
    by (intro barrage_cong) simp
  then show "rocketBarrage_execute rnd n gs targets = rocketBarrage_execute rnd' n gs targets"
    by (simp add: rocketBarrage_execute_def fenCopy_eq v)
qed

lemma rocketBarrage_a7:
  assumes "getActionById ''rocketBarrage'' = Some rocketBarrage_action"
  shows "executeAction rnd creativeStart ''rocketBarrage'' [(0, 7)] =
     (True, \<lparr>gameState = (gameState creativeStart)
                \<lparr>chess := (if 4 \<le> roll rnd 0 then remove newChess (Some (0, 7)) else newChess),
                 gameOver := fst (checkWinCondition
                    (if 4 \<le> roll rnd 0 then remove newChess (Some (0, 7)) else newChess)),
                 winner := snd (checkWinCondition
                    (if 4 \<le> roll rnd 0 then remove newChess (Some (0, 7)) else newChess)),
                 currentPlayer := B\<rparr>,
             actionRegistry = initialRegistry(''rocketBarrage'' \<mapsto> True),
             randomCalls = 1\<rparr>)"
proof -
  have r: "actionRegistry creativeStart ''rocketBarrage'' \<noteq> Some True"
    by (simp add: creativeStart_fields initialRegistry_unused)
  have t: "targetAccepted rocketBarrage_action (gameState creativeStart) [(0, 7)] = Some True"
    by (simp add: targetAccepted_def rocketBarrage_action_def returns_def
        rocketBarrage_validateTarget_def creativeStart_fields get_newChess)
  have e: "execute rocketBarrage_action rnd (randomCalls creativeStart) (gameState creativeStart)
             [(0, 7)]
       = Some ((gameState creativeStart)
                \<lparr>chess := (if 4 \<le> roll rnd 0 then remove newChess (Some (0, 7)) else newChess)\<rparr>,
               1)"
    by (simp add: rocketBarrage_action_def rocketBarrage_execute_def creativeStart_fields
        fenCopy_eq validateFen_newChess)
  show ?thesis
    unfolding executeAction_accept[OF r creativeStart_fields(1) assms t e]
    by (simp add: creativeStart_fields getOpponentColor_def)
qed

text \<open>C9 as stated fails: from the same state, with the same input, two runs end in
  different states, the pawn a7 standing after one and removed after the other. Nothing the
  game is given fixes the draws.\<close>

theorem rocketBarrage_not_determined_counterexample:
  "fst (executeAction lowRolls creativeStart ''rocketBarrage'' [(0, 7)]) \<and>
   fst (executeAction highRolls creativeStart ''rocketBarrage'' [(0, 7)]) \<and>
   get (chess (gameState (snd (executeAction lowRolls creativeStart ''rocketBarrage'' [(0, 7)]))))
      (Some (0, 7)) = Some \<lparr>type = P, color = B\<rparr> \<and>
   get (chess (gameState (snd (executeAction highRolls creativeStart ''rocketBarrage'' [(0, 7)]))))
      (Some (0, 7)) = None"
  unfolding rocketBarrage_a7[OF getActionById_rocketBarrage]
  by (simp add: roll_def lowRolls_def highRolls_def get_newChess)
     (simp add: get_def remove_def onBoard_def)

text \<open>The theorem of C9 on three pawns of the starting position with the rolls 6, 1 and 4.\<close>

theorem rocketBarrage_one_draw_per_target_witness:
  "rocketBarrage_execute mixedRolls 0 (gameState creativeStart) [(0, 7), (2, 7), (3, 7)]
     = Some ((gameState creativeStart)
               \<lparr>chess := barrage_spec mixedRolls 0 [(0, 7), (2, 7), (3, 7)] newChess\<rparr>, 3) \<and>
   get (barrage_spec mixedRolls 0 [(0, 7), (2, 7), (3, 7)] newChess) (Some (0, 7)) = None \<and>
   get (barrage_spec mixedRolls 0 [(0, 7), (2, 7), (3, 7)] newChess) (Some (2, 7)) \<noteq> None \<and>
   get (barrage_spec mixedRolls 0 [(0, 7), (2, 7), (3, 7)] newChess) (Some (3, 7)) = None \<and>
   rocketBarrage_execute mixedRolls 0 (gameState creativeStart) [(0, 7), (2, 7), (3, 7)]
     = rocketBarrage_execute mixedThenLow 0 (gameState creativeStart) [(0, 7), (2, 7), (3, 7)]"
proof -
  let ?ts = "[(0, 7), (2, 7), (3, 7)] :: Square list"
  let ?gs = "gameState creativeStart"
  have v: "validateFen (chess ?gs)"
    by (simp add: creativeStart_fields validateFen_newChess)
  note t = rocketBarrage_one_draw_per_target[OF v, of mixedRolls 0 ?ts mixedThenLow]
  have d: "distinct ?ts" by simp
  have a: "\<forall>i < length ?ts. mixedRolls (0 + i) = mixedThenLow (0 + i)"
    by (simp add: mixedThenLow_def)
  from t have n: "rocketBarrage_execute mixedRolls 0 ?gs ?ts
     = Some (?gs\<lparr>chess := barrage_spec mixedRolls 0 ?ts newChess\<rparr>, 3)"
    by (simp add: creativeStart_fields)
  from t d have k: "\<forall>i < length ?ts. get (chess ?gs) (Some (?ts ! i)) \<noteq> None \<longrightarrow>
         (get (barrage_spec mixedRolls 0 ?ts (chess ?gs)) (Some (?ts ! i)) = None
            \<longleftrightarrow> 4 \<le> roll mixedRolls (0 + i))" by blast
  from t a have e: "rocketBarrage_execute mixedRolls 0 ?gs ?ts
      = rocketBarrage_execute mixedThenLow 0 ?gs ?ts" by blast
  from k[rule_format, of 0] k[rule_format, of 1] k[rule_format, of 2]
  have "get (barrage_spec mixedRolls 0 ?ts newChess) (Some (0, 7)) = None"
    "get (barrage_spec mixedRolls 0 ?ts newChess) (Some (2, 7)) \<noteq> None"
    "get (barrage_spec mixedRolls 0 ?ts newChess) (Some (3, 7)) = None"
    by (simp_all add: creativeStart_fields get_newChess roll_def mixedRolls_def)
  with n e show ?thesis by simp
qed

end
